theory Spec2Isabelle
  imports Complex_Main "HOL-Library.AList" "HOL-Library.Product_Lexorder"
begin

text \<open>
  A shallow embedding of the acquisition-and-pool engine of the cookies service: the
  proxy rotator (\<^verbatim>\<open>getRandomProxy\<close>), the artifact store (\<^verbatim>\<open>CookieService\<close>), the
  attempt tracker in its plain and its enhanced variant (\<^verbatim>\<open>CookieRefreshTracker\<close>) and
  the pool scheduler (\<^verbatim>\<open>CookiePoolManager\<close>).  A MongoDB collection is the list of
  its documents; every function takes the collection and returns the new collection with
  its result; a thrown exception is \<open>Inl\<close>.  One call reads the clock once: \<open>now\<close>, in
  milliseconds, stands for each \<^verbatim>\<open>new Date()\<close> and \<^verbatim>\<open>Date.now()\<close> of the call.  Storage
  calls themselves are taken not to fail.
\<close>


section \<open>JavaScript values, errors and sets\<close>

text \<open>
  Values that reach the services from a request body.  \<^verbatim>\<open>undefined\<close> and \<^verbatim>\<open>null\<close> are
  one constructor: every parameter modelled with this type has the default \<^verbatim>\<open>null\<close>.
  Numbers are whole numbers; time is in milliseconds since the epoch.
\<close>

datatype jsval =
    JNull
  | JBool bool
  | JNum int
  | JStr string
  | JObj "(string \<times> jsval) list"

datatype js_type = T_object | T_boolean | T_number | T_string

fun typeof :: "jsval \<Rightarrow> js_type" where
  "typeof JNull = T_object"
| "typeof (JBool b) = T_boolean"
| "typeof (JNum n) = T_number"
| "typeof (JStr s) = T_string"
| "typeof (JObj fs) = T_object"

fun truthy :: "jsval \<Rightarrow> bool" where
  "truthy JNull = False"
| "truthy (JBool b) = b"
| "truthy (JNum n) = (n \<noteq> 0)"
| "truthy (JStr s) = (s \<noteq> [])"
| "truthy (JObj fs) = True"

text \<open>\<^verbatim>\<open>a || b\<close> and the optional property read \<^verbatim>\<open>v?.k\<close>.\<close>

definition js_or :: "jsval \<Rightarrow> jsval \<Rightarrow> jsval" where
  "js_or a b = (if truthy a then a else b)"

fun opt_get :: "jsval \<Rightarrow> string \<Rightarrow> jsval" where
  "opt_get (JObj fs) k = (case map_of fs k of Some v \<Rightarrow> v | None \<Rightarrow> JNull)"
| "opt_get v k = JNull"

text \<open>A thrown exception: its constructor and its message.\<close>

datatype js_error = Error string | TypeError string

text \<open>
  A JavaScript \<^verbatim>\<open>Set\<close> of strings, in insertion order: \<^verbatim>\<open>add\<close> of a member changes
  nothing, \<^verbatim>\<open>size\<close> is the length.
\<close>

type_synonym js_set = "string list"

definition Set_has :: "js_set \<Rightarrow> string \<Rightarrow> bool" where
  "Set_has s x = (x \<in> set s)"

definition Set_add :: "string \<Rightarrow> js_set \<Rightarrow> js_set" where
  "Set_add x s = (if x \<in> set s then s else s @ [x])"


definition Set_size :: "js_set \<Rightarrow> int" where
  "Set_size s = int (length s)"

section \<open>Proxy rotator\<close>

record proxy_entry =
  proxy :: string
  username :: string
  password :: string

text \<open>
  \<^verbatim>\<open>getRandomProxy(avoidFailedProxies)\<close>.  The module state \<^verbatim>\<open>failedProxies\<close> is passed
  in and returned; \<^verbatim>\<open>proxyHelper.proxies\<close> is \<open>None\<close> when the helper has no list;
  \<open>rnd\<close> is the value \<^verbatim>\<open>Math.random()\<close> returns.  An index outside the array reads
  \<^verbatim>\<open>undefined\<close>, and the log line's \<^verbatim>\<open>selectedProxy.proxy\<close> then throws.
\<close>

definition getRandomProxy ::
  "rat \<Rightarrow> bool \<Rightarrow> proxy_entry list option \<Rightarrow> js_set
     \<Rightarrow> (js_error + proxy_entry option) \<times> js_set" where
  "getRandomProxy rnd avoidFailedProxies proxies failedProxies =
     (case proxies of
        None \<Rightarrow> (Inr None, failedProxies)
      | Some ps \<Rightarrow>
          if length ps = 0 then (Inr None, failedProxies)
          else
            let (availableProxies, failedProxies') =
                  (if avoidFailedProxies \<and> Set_size failedProxies > 0 then
                     (let filtered = filter (\<lambda>p. \<not> Set_has failedProxies (proxy p)) ps
                      in if length filtered = 0 then (ps, []) else (filtered, failedProxies))
                   else (ps, failedProxies));
                randomIndex = \<lfloor>rnd * of_nat (length availableProxies)\<rfloor>
            in if 0 \<le> randomIndex \<and> randomIndex < int (length availableProxies)
               then (Inr (Some (availableProxies ! nat randomIndex)), failedProxies')
               else (Inl (TypeError ''Cannot read properties of undefined''),
                     failedProxies'))"

text \<open>\<^verbatim>\<open>markProxyAsFailed\<close>, without the timer that removes the entry ten minutes later.\<close>

definition markProxyAsFailed :: "string \<Rightarrow> js_set \<Rightarrow> js_set" where
  "markProxyAsFailed proxyString failedProxies =
     (if proxyString \<noteq> [] then Set_add proxyString failedProxies else failedProxies)"

section \<open>Artifact store\<close>

text \<open>
  The \<^verbatim>\<open>Cookie\<close> collection.  A document's nested paths are written with an
  underscore (\<^verbatim>\<open>validity.expiresAt\<close> is \<open>validity_expiresAt\<close>); \<open>oid\<close> is the
  document's \<^verbatim>\<open>_id\<close>, which the collection hands out and never reuses; \<open>createdAt\<close>
  and \<open>updatedAt\<close> are the schema's timestamps.
\<close>

datatype cookie_status = Active | Inactive | Expired | Failed

text \<open>
  One cookie of a payload; \<open>expires\<close> is in whole seconds since the epoch, \<open>None\<close> when
  the cookie has none.  The payload handed to \<^verbatim>\<open>storeCookies\<close> is \<^verbatim>\<open>null\<close>, an array of
  cookies, or an object with an optional \<^verbatim>\<open>cookies\<close> array and an optional
  \<^verbatim>\<open>lastUpdated\<close>.
\<close>

record cookie_entry =
  name :: string
  cvalue :: string
  cdomain :: string
  expires :: "int option"

datatype cookies_data =
    DataNull
  | DataArray "cookie_entry list"
  | DataObject "cookie_entry list option" "int option"

record cookie =
  oid :: nat
  cookieId :: string
  cookies :: cookies_data
  source_eventId :: "string option"
  source_refreshId :: "string option"
  source_proxy :: "string option"
  source_userAgent :: "string option"
  metadata_domain :: string
  metadata_originalFormat :: string
  tags :: "string list"
  validity_isValid :: bool
  validity_expiresAt :: "int option"
  validity_lastUsed :: int
  validity_usageCount :: int
  quality_score :: int
  quality_successRate :: int
  quality_lastSuccessful :: int
  status :: cookie_status
  createdAt :: int
  updatedAt :: int

record cookie_store =
  docs :: "cookie list"
  next_oid :: nat

text \<open>
  Collection operations: \<^verbatim>\<open>findOne\<close>; an update of the first matching document;
  \<^verbatim>\<open>findOneAndUpdate(filter, update, {new: true})\<close>, which returns the updated document,
  or \<open>None\<close> (\<^verbatim>\<open>null\<close>) when no document matches, in which case nothing is written;
  \<^verbatim>\<open>deleteMany\<close> and its \<^verbatim>\<open>deletedCount\<close>.
\<close>

definition findOne :: "('a \<Rightarrow> bool) \<Rightarrow> 'a list \<Rightarrow> 'a option" where
  "findOne q ds = find q ds"

fun updateOne :: "('a \<Rightarrow> bool) \<Rightarrow> ('a \<Rightarrow> 'a) \<Rightarrow> 'a list \<Rightarrow> 'a list" where
  "updateOne q f [] = []"
| "updateOne q f (d # ds) = (if q d then f d # ds else d # updateOne q f ds)"

definition findOneAndUpdate ::
  "('a \<Rightarrow> bool) \<Rightarrow> ('a \<Rightarrow> 'a) \<Rightarrow> 'a list \<Rightarrow> 'a option \<times> 'a list" where
  "findOneAndUpdate q f ds =
     (case findOne q ds of
        None \<Rightarrow> (None, ds)
      | Some d \<Rightarrow> (Some (f d), updateOne q f ds))"

definition deleteMany :: "('a \<Rightarrow> bool) \<Rightarrow> 'a list \<Rightarrow> 'a list" where
  "deleteMany q ds = filter (\<lambda>d. \<not> q d) ds"

definition deletedCount :: "('a \<Rightarrow> bool) \<Rightarrow> 'a list \<Rightarrow> nat" where
  "deletedCount q ds = length (filter q ds)"

text \<open>
  \<^verbatim>\<open>Cookie.findByIdAndUpdate(id, update, {new: true})\<close>; the schema's timestamps make every
  update set \<open>updatedAt\<close>.
\<close>

definition findByIdAndUpdate ::
  "int \<Rightarrow> nat \<Rightarrow> (cookie \<Rightarrow> cookie) \<Rightarrow> cookie list \<Rightarrow> cookie option \<times> cookie list" where
  "findByIdAndUpdate now i f ds =
     findOneAndUpdate (\<lambda>d. oid d = i) (\<lambda>d. (f d)\<lparr>updatedAt := now\<rparr>) ds"

text \<open>Query operators on an optional date and on the \<open>tags\<close> array.\<close>

definition date_gt :: "int option \<Rightarrow> int \<Rightarrow> bool" where
  "date_gt d t = (case d of Some e \<Rightarrow> t < e | None \<Rightarrow> False)"

definition date_lt :: "int option \<Rightarrow> int \<Rightarrow> bool" where
  "date_lt d t = (case d of Some e \<Rightarrow> e < t | None \<Rightarrow> False)"

definition tags_in :: "string list \<Rightarrow> string list \<Rightarrow> bool" where
  "tags_in wanted ts = (\<exists>t \<in> set wanted. t \<in> set ts)"

subsection \<open>storeCookies\<close>

record store_options =
  o_eventId :: "string option"
  o_refreshId :: "string option"
  o_proxy :: "string option"
  o_userAgent :: "string option"
  o_domain :: "string option"
  o_tags :: "string list"

text \<open>The array \<^verbatim>\<open>processedCookies\<close> holds, or \<open>None\<close> when it is not an array.\<close>

fun processedCookies_array :: "cookies_data \<Rightarrow> cookie_entry list option" where
  "processedCookies_array DataNull = None"
| "processedCookies_array (DataArray cs) = Some cs"
| "processedCookies_array (DataObject cs lastUpdated) = cs"

fun processedCookies :: "cookies_data \<Rightarrow> cookies_data" where
  "processedCookies (DataObject (Some cs) lastUpdated) = DataArray cs"
| "processedCookies d = d"

text \<open>
  One round of the \<^verbatim>\<open>forEach\<close> over the payload: \<open>expires\<close> is in seconds, the dates
  in milliseconds.
\<close>

definition expiry_step :: "int \<Rightarrow> cookie_entry \<Rightarrow> int \<Rightarrow> int" where
  "expiry_step now c earliestExpiry =
     (case expires c of
        None \<Rightarrow> earliestExpiry
      | Some e \<Rightarrow>
          if e \<noteq> 0 \<and> e > 0 then
            (let cookieExpiry = e * 1000
             in if cookieExpiry < earliestExpiry \<and> cookieExpiry > now then cookieExpiry
                else earliestExpiry)
          else earliestExpiry)"

definition earliestExpiry :: "int \<Rightarrow> cookies_data \<Rightarrow> int" where
  "earliestExpiry now cookiesData =
     (case processedCookies_array cookiesData of
        None \<Rightarrow> now + 24 * 60 * 60 * 1000
      | Some cs \<Rightarrow> fold (expiry_step now) cs (now + 24 * 60 * 60 * 1000))"

text \<open>
  \<open>new_cookieId\<close> is the fresh \<^verbatim>\<open>crypto.randomUUID()\<close>.  The unique index on
  \<open>cookieId\<close> makes \<^verbatim>\<open>Cookie.create\<close> fail with code 11000 on a duplicate, which the
  function turns into \<^verbatim>\<open>null\<close>; a \<^verbatim>\<open>null\<close> payload throws at
  \<^verbatim>\<open>cookiesData.lastUpdated\<close>.
\<close>

definition storeCookies ::
  "int \<Rightarrow> string \<Rightarrow> cookies_data \<Rightarrow> store_options \<Rightarrow> cookie_store
     \<Rightarrow> js_error + (cookie option \<times> cookie_store)" where
  "storeCookies now new_cookieId cookiesData options s =
     (case cookiesData of
        DataNull \<Rightarrow> Inl (TypeError ''Cannot read properties of null'')
      | _ \<Rightarrow>
        let cookieRecord = \<lparr>
              oid = next_oid s,
              cookieId = new_cookieId,
              cookies = processedCookies cookiesData,
              source_eventId = o_eventId options,
              source_refreshId = o_refreshId options,
              source_proxy = o_proxy options,
              source_userAgent = o_userAgent options,
              metadata_domain =
                (case o_domain options of
                   None \<Rightarrow> ''ticketmaster.com''
                 | Some d \<Rightarrow> if d = [] then ''ticketmaster.com'' else d),
              metadata_originalFormat =
                (case cookiesData of
                   DataObject cs (Some u) \<Rightarrow> if u \<noteq> 0 then ''external'' else ''internal''
                 | _ \<Rightarrow> ''internal''),
              tags = o_tags options,
              validity_isValid = True,
              validity_expiresAt = Some (earliestExpiry now cookiesData),
              validity_lastUsed = now,
              validity_usageCount = 0,
              quality_score = 100,
              quality_successRate = 100,
              quality_lastSuccessful = now,
              status = Active,
              createdAt = now,
              updatedAt = now \<rparr>
        in if \<exists>d \<in> set (docs s). cookieId d = new_cookieId
           then Inr (None, s)
           else Inr (Some cookieRecord,
                     s\<lparr>docs := docs s @ [cookieRecord], next_oid := Suc (next_oid s)\<rparr>))"

subsection \<open>getCookies\<close>




definition matches :: "('a \<Rightarrow> bool) list \<Rightarrow> 'a \<Rightarrow> bool" where
  "matches query d = list_all (\<lambda>p. p d) query"




definition getCookieCount :: "cookie_store \<Rightarrow> nat" where
  "getCookieCount s = length (filter (\<lambda>d. status d = Active) (docs s))"

subsection \<open>cleanupExpiredCookies, cleanup\<close>

definition cleanupExpiredCookies :: "int \<Rightarrow> cookie_store \<Rightarrow> (nat \<times> nat) \<times> cookie_store" where
  "cleanupExpiredCookies now s =
     (let expiredQ = (\<lambda>d. date_lt (validity_expiresAt d) now);
          expired = deletedCount expiredQ (docs s);
          ds1 = deleteMany expiredQ (docs s);
          invalidQ = (\<lambda>d. validity_isValid d = False \<and> updatedAt d < now - 24 * 60 * 60 * 1000);
          invalid = deletedCount invalidQ ds1;
          ds2 = deleteMany invalidQ ds1
      in ((expired, invalid), s\<lparr>docs := ds2\<rparr>))"

definition cleanup :: "int \<Rightarrow> cookie_store \<Rightarrow> nat \<times> cookie_store" where
  "cleanup now s =
     (let q = (\<lambda>d. date_lt (validity_expiresAt d) now \<or> status d = Failed \<or> quality_score d < 10)
      in (deletedCount q (docs s), s\<lparr>docs := deleteMany q (docs s)\<rparr>))"

subsection \<open>updateCookieUsage, getBestCookies\<close>

definition updateCookieUsage :: "int \<Rightarrow> string \<Rightarrow> cookie_store \<Rightarrow> cookie option \<times> cookie_store" where
  "updateCookieUsage now cid s =
     (case findOneAndUpdate (\<lambda>d. cookieId d = cid)
             (\<lambda>d. d\<lparr>validity_usageCount := validity_usageCount d + 1,
                      validity_lastUsed := now, updatedAt := now\<rparr>) (docs s) of
        (updated, ds) \<Rightarrow> (updated, s\<lparr>docs := ds\<rparr>))"

text \<open>The criteria of \<^verbatim>\<open>getBestCookies\<close>; \<open>None\<close> is a property the caller left out.\<close>

record criteria =
  c_domain :: "string option"
  c_tags :: "string list option"
  c_excludeUsedRecently :: "bool option"
  c_maxUsageCount :: "int option"

definition no_criteria :: criteria where
  "no_criteria = \<lparr>c_domain = None, c_tags = None, c_excludeUsedRecently = None,
                   c_maxUsageCount = None\<rparr>"

definition getBestCookies_query :: "int \<Rightarrow> criteria \<Rightarrow> (cookie \<Rightarrow> bool) list" where
  "getBestCookies_query now crit =
     (let tags' = (case c_tags crit of None \<Rightarrow> [] | Some ts \<Rightarrow> ts);
          excludeUsedRecently = (case c_excludeUsedRecently crit of None \<Rightarrow> True | Some b \<Rightarrow> b);
          maxUsageCount = (case c_maxUsageCount crit of None \<Rightarrow> 10 | Some m \<Rightarrow> m)
      in [\<lambda>d. status d = Active,
          \<lambda>d. validity_isValid d = True,
          \<lambda>d. date_gt (validity_expiresAt d) now,
          \<lambda>d. quality_score d \<ge> 50]
         @ (case c_domain crit of
              Some dm \<Rightarrow> if dm \<noteq> [] then [\<lambda>d. metadata_domain d = dm] else []
            | None \<Rightarrow> [])
         @ (if length tags' > 0 then [\<lambda>d. tags_in tags' (tags d)] else [])
         @ (if excludeUsedRecently then [\<lambda>d. validity_lastUsed d < now - 5 * 60 * 1000] else [])
         @ (if maxUsageCount > 0 then [\<lambda>d. validity_usageCount d < maxUsageCount] else []))"

text \<open>
  \<^verbatim>\<open>findOne(query).sort({'quality.score': -1, 'validity.usageCount': 1})\<close>: the first
  document of the matching ones in that order (equal keys keep the collection's order).
\<close>

definition findOne_best :: "(cookie \<Rightarrow> bool) list \<Rightarrow> cookie list \<Rightarrow> cookie option" where
  "findOne_best query ds =
     (case sort_key (\<lambda>d. (- quality_score d, validity_usageCount d)) (filter (matches query) ds) of
        [] \<Rightarrow> None
      | d # _ \<Rightarrow> Some d)"

text \<open>The function returns the document as it was read, before the usage update.\<close>

definition getBestCookies :: "int \<Rightarrow> criteria \<Rightarrow> cookie_store \<Rightarrow> cookie option \<times> cookie_store" where
  "getBestCookies now crit s =
     (case findOne_best (getBestCookies_query now crit) (docs s) of
        None \<Rightarrow> (None, s)
      | Some c \<Rightarrow>
          (Some c,
           s\<lparr>docs := snd (findByIdAndUpdate now (oid c)
                 (\<lambda>d. d\<lparr>validity_usageCount := validity_usageCount d + 1,
                          validity_lastUsed := now\<rparr>) (docs s))\<rparr>))"

subsection \<open>updateCookieQuality\<close>

definition updateCookieQuality ::
  "int \<Rightarrow> string \<Rightarrow> bool \<Rightarrow> cookie_store \<Rightarrow> js_error + (cookie option \<times> cookie_store)" where
  "updateCookieQuality now cid success s =
     (case findOne (\<lambda>d. cookieId d = cid) (docs s) of
        None \<Rightarrow> Inl (Error ''Cookie not found'')
      | Some c \<Rightarrow>
          let update =
                (if success then
                   (\<lambda>d. d\<lparr>quality_lastSuccessful := now,
                            quality_score := min 100 (quality_score c + 1)\<rparr>)
                 else
                   (let newScore = max 0 (quality_score c - 5)
                    in if newScore < 20 then
                         (\<lambda>d. d\<lparr>quality_score := newScore, status := Failed,
                                  validity_isValid := False\<rparr>)
                       else (\<lambda>d. d\<lparr>quality_score := newScore\<rparr>)))
          in (case findByIdAndUpdate now (oid c) update (docs s) of
                (updatedCookie, ds) \<Rightarrow> Inr (updatedCookie, s\<lparr>docs := ds\<rparr>)))"

section \<open>Attempt tracker\<close>

text \<open>
  The \<^verbatim>\<open>CookieRefresh\<close> collection.  Its schema is not among the sources: a field the
  code never sets on \<^verbatim>\<open>create\<close> is absent (\<open>None\<close>), except \<open>consecutiveFailures\<close>,
  whose schema default is the parameter \<open>cf_default\<close> of the functions that create a
  record; \<^verbatim>\<open>create\<close> appends the record.
\<close>

datatype refresh_status = In_progress | Success | Failed_refresh

type_synonym metadata = "(string \<times> string) list"

record refresh =
  refreshId :: string
  r_status :: refresh_status
  eventId :: jsval
  startTime :: int
  r_proxy :: jsval
  r_metadata :: metadata
  completionTime :: "int option"
  nextScheduledRefresh :: "int option"
  cookieCount :: "int option"
  retryCount :: "int option"
  duration :: "int option"
  errorMessage :: "string option"
  consecutiveFailures :: "int option"

text \<open>\<^verbatim>\<open>{...a, ...b}\<close> and \<^verbatim>\<open>$mergeObjects\<close>: the properties of \<open>b\<close> override.\<close>

definition mergeObjects :: "metadata \<Rightarrow> metadata \<Rightarrow> metadata" where
  "mergeObjects a b = fold (\<lambda>(k, v). AList.update k v) b a"

subsection \<open>The plain tracker (cookieRefreshTracker.js)\<close>

definition plain_startRefresh ::
  "int \<Rightarrow> string \<Rightarrow> int option \<Rightarrow> jsval \<Rightarrow> jsval \<Rightarrow> metadata \<Rightarrow> refresh list
     \<Rightarrow> refresh \<times> refresh list" where
  "plain_startRefresh now new_refreshId cf_default eventId' proxy' metadata' rs =
     (let proxyString = js_or (js_or (opt_get proxy' ''proxy'') proxy') (JStr ''no_proxy'');
          refreshRecord = \<lparr>
            refreshId = new_refreshId, r_status = In_progress, eventId = eventId',
            startTime = now, r_proxy = proxyString, r_metadata = metadata',
            completionTime = None, nextScheduledRefresh = None, cookieCount = None,
            retryCount = None, duration = None, errorMessage = None,
            consecutiveFailures = cf_default \<rparr>
      in (refreshRecord, rs @ [refreshRecord]))"

definition plain_markSuccess ::
  "int \<Rightarrow> string \<Rightarrow> int \<Rightarrow> int \<Rightarrow> metadata \<Rightarrow> refresh list \<Rightarrow> refresh option \<times> refresh list" where
  "plain_markSuccess now rid cookieCount' retryCount' metadata' rs =
     (let completionTime' = now;
          nextScheduledRefresh' = completionTime' + 30 * 60 * 1000;
          startRecord = findOne (\<lambda>r. refreshId r = rid) rs;
          duration' = (case startRecord of Some r \<Rightarrow> Some (completionTime' - startTime r)
                       | None \<Rightarrow> None);
          startMetadata = (case startRecord of Some r \<Rightarrow> r_metadata r | None \<Rightarrow> [])
      in findOneAndUpdate (\<lambda>r. refreshId r = rid)
           (\<lambda>r. r\<lparr>r_status := Success,
                    completionTime := Some completionTime',
                    nextScheduledRefresh := Some nextScheduledRefresh',
                    cookieCount := Some cookieCount',
                    retryCount := Some retryCount',
                    duration := duration',
                    r_metadata := mergeObjects startMetadata metadata'\<rparr>) rs)"

definition plain_markFailed ::
  "int \<Rightarrow> string \<Rightarrow> string \<Rightarrow> int \<Rightarrow> metadata \<Rightarrow> refresh list \<Rightarrow> refresh option \<times> refresh list" where
  "plain_markFailed now rid errorMessage' retryCount' metadata' rs =
     (let completionTime' = now;
          nextScheduledRefresh' = completionTime' + 5 * 60 * 1000;
          startRecord = findOne (\<lambda>r. refreshId r = rid) rs;
          duration' = (case startRecord of Some r \<Rightarrow> Some (completionTime' - startTime r)
                       | None \<Rightarrow> None);
          startMetadata = (case startRecord of Some r \<Rightarrow> r_metadata r | None \<Rightarrow> [])
      in findOneAndUpdate (\<lambda>r. refreshId r = rid)
           (\<lambda>r. r\<lparr>r_status := Failed_refresh,
                    completionTime := Some completionTime',
                    nextScheduledRefresh := Some nextScheduledRefresh',
                    errorMessage := Some errorMessage',
                    retryCount := Some retryCount',
                    duration := duration',
                    r_metadata := mergeObjects startMetadata metadata'\<rparr>) rs)"

subsection \<open>The enhanced tracker (cookieRefreshService.js)\<close>

definition validateInput :: "jsval \<Rightarrow> jsval \<Rightarrow> jsval \<Rightarrow> string list" where
  "validateInput refreshId' eventId' proxy' =
     (if truthy refreshId' \<and> typeof refreshId' \<noteq> T_string
        then [''refreshId must be a string''] else [])
     @ (if truthy eventId' \<and> typeof eventId' \<noteq> T_string
        then [''eventId must be a string''] else [])
     @ (if truthy proxy' \<and> typeof proxy' \<noteq> T_string \<and> typeof proxy' \<noteq> T_object
        then [''proxy must be a string or object''] else [])"

fun join :: "string list \<Rightarrow> string" where
  "join [] = []"
| "join [x] = x"
| "join (x # y # ys) = x @ '', '' @ join (y # ys)"

definition Math_pow2 :: "int \<Rightarrow> rat" where
  "Math_pow2 e = (if 0 \<le> e then 2 ^ nat e else 1 / 2 ^ nat (- e))"

definition baseDelay :: rat where
  "baseDelay = 5 * 60 * 1000"

definition maxDelay :: rat where
  "maxDelay = 60 * 60 * 1000"

definition calculateBackoffDelay :: "int \<Rightarrow> rat" where
  "calculateBackoffDelay consecutiveFailures' =
     (let exponentialDelay = baseDelay * Math_pow2 (min (consecutiveFailures' - 1) 4)
      in min exponentialDelay maxDelay)"

text \<open>
  \<open>env_DISABLE_PROXIES\<close> is \<^verbatim>\<open>process.env.DISABLE_PROXIES\<close>.  \<open>proxyString\<close> is declared
  with \<^verbatim>\<open>const\<close>, so the assignment under the environment check throws.  \<open>metadata'\<close>
  is \<open>None\<close> for \<^verbatim>\<open>null\<close>, whose property read throws.
\<close>

definition startRefresh ::
  "string option \<Rightarrow> int \<Rightarrow> string \<Rightarrow> int option \<Rightarrow> jsval \<Rightarrow> jsval \<Rightarrow> metadata option
     \<Rightarrow> refresh list \<Rightarrow> js_error + (refresh \<times> refresh list)" where
  "startRefresh env_DISABLE_PROXIES now new_refreshId cf_default eventId' proxy' metadata' rs =
     (let validationErrors = validateInput JNull eventId' proxy'
      in if length validationErrors > 0
         then Inl (Error (''Validation failed: '' @ join validationErrors))
         else
           let proxyString = js_or (js_or (opt_get proxy' ''proxy'') proxy') (JStr ''no_proxy'')
           in if env_DISABLE_PROXIES = Some ''true''
              then Inl (TypeError ''Assignment to constant variable.'')
              else
                (case metadata' of
                   None \<Rightarrow> Inl (TypeError ''Cannot read properties of null'')
                 | Some md \<Rightarrow>
                     let userAgent =
                           (case map_of md ''userAgent'' of
                              Some u \<Rightarrow> if u \<noteq> [] then u else ''cookies-service/1.0''
                            | None \<Rightarrow> ''cookies-service/1.0'');
                         refreshRecord = \<lparr>
                           refreshId = new_refreshId, r_status = In_progress,
                           eventId = eventId', startTime = now, r_proxy = proxyString,
                           r_metadata =
                             mergeObjects md [(''userAgent'', userAgent), (''source'', ''api'')],
                           completionTime = None, nextScheduledRefresh = None,
                           cookieCount = None, retryCount = None, duration = None,
                           errorMessage = None, consecutiveFailures = cf_default \<rparr>
                     in Inr (refreshRecord, rs @ [refreshRecord])))"

text \<open>
  \<open>cookieCount'\<close> and \<open>retryCount'\<close> are what \<^verbatim>\<open>parseInt\<close> makes of the arguments,
  \<open>None\<close> for \<^verbatim>\<open>NaN\<close>.  The update's \<^verbatim>\<open>{$subtract: [completionTime, '$startTime']}\<close> and
  \<^verbatim>\<open>{$mergeObjects: ['$metadata', metadata]}\<close> are read as the values they name;
  \<^verbatim>\<open>$setOnInsert\<close> has no effect, since the call does not upsert.  The route hands
  \<open>rid\<close> over as a string.
\<close>

definition count_arg :: "int option \<Rightarrow> int" where
  "count_arg n = max 0 (case n of Some k \<Rightarrow> if k \<noteq> 0 then k else 0 | None \<Rightarrow> 0)"

definition markSuccess ::
  "int \<Rightarrow> string \<Rightarrow> int option \<Rightarrow> int option \<Rightarrow> metadata \<Rightarrow> refresh list
     \<Rightarrow> js_error + (refresh \<times> refresh list)" where
  "markSuccess now rid cookieCount' retryCount' metadata' rs =
     (let validationErrors = validateInput (JStr rid) JNull JNull
      in if length validationErrors > 0
         then Inl (Error (''Validation failed: '' @ join validationErrors))
         else
           let completionTime' = now;
               nextScheduledRefresh' = completionTime' + 30 * 60 * 1000
           in (case findOneAndUpdate (\<lambda>r. refreshId r = rid \<and> r_status r = In_progress)
                       (\<lambda>r. r\<lparr>r_status := Success,
                                completionTime := Some completionTime',
                                nextScheduledRefresh := Some nextScheduledRefresh',
                                cookieCount := Some (count_arg cookieCount'),
                                retryCount := Some (count_arg retryCount'),
                                duration := Some (completionTime' - startTime r),
                                r_metadata := mergeObjects (r_metadata r) metadata'\<rparr>) rs of
                 (None, _) \<Rightarrow> Inl (Error ''Refresh record not found or already completed'')
               | (Some refreshRecord, rs') \<Rightarrow> Inr (refreshRecord, rs')))"

definition markFailed ::
  "int \<Rightarrow> string \<Rightarrow> jsval \<Rightarrow> int option \<Rightarrow> metadata \<Rightarrow> refresh list
     \<Rightarrow> js_error + (refresh \<times> refresh list)" where
  "markFailed now rid errorMessage' retryCount' metadata' rs =
     (let validationErrors = validateInput (JStr rid) JNull JNull
      in if length validationErrors > 0
         then Inl (Error (''Validation failed: '' @ join validationErrors))
         else
           (case errorMessage' of
              JStr msg \<Rightarrow>
                if msg = [] then Inl (Error ''errorMessage must be a non-empty string'')
                else
                  let completionTime' = now
                  in (case findOne (\<lambda>r. refreshId r = rid) rs of
                        None \<Rightarrow> Inl (Error ''Refresh record not found'')
                      | Some currentRecord \<Rightarrow>
                          let consecutiveFailures' =
                                (case consecutiveFailures currentRecord of
                                   Some k \<Rightarrow> if k \<noteq> 0 then k else 0
                                 | None \<Rightarrow> 0) + 1;
                              backoffDelay = calculateBackoffDelay consecutiveFailures';
                              nextScheduledRefresh' = \<lfloor>of_int completionTime' + backoffDelay\<rfloor>
                          in (case findOneAndUpdate
                                     (\<lambda>r. refreshId r = rid \<and> r_status r = In_progress)
                                     (\<lambda>r. r\<lparr>r_status := Failed_refresh,
                                              completionTime := Some completionTime',
                                              nextScheduledRefresh := Some nextScheduledRefresh',
                                              errorMessage := Some (take 500 msg),
                                              retryCount := Some (count_arg retryCount'),
                                              duration := Some (completionTime' - startTime r),
                                              r_metadata := mergeObjects (r_metadata r) metadata',
                                              consecutiveFailures := Some consecutiveFailures'\<rparr>)
                                     rs of
                                (None, _) \<Rightarrow>
                                  Inl (Error ''Refresh record not found or already completed'')
                              | (Some refreshRecord, rs') \<Rightarrow> Inr (refreshRecord, rs')))
            | _ \<Rightarrow> Inl (Error ''errorMessage must be a non-empty string'')))"

section \<open>Pool scheduler\<close>

record pool_options =
  minCookiePool :: int
  maxCookiePool :: int
  batchSize :: int
  visitInterval :: int
  cleanupInterval :: int
  maxRetries :: int
  maxConcurrentBrowsers :: int

definition default_options :: pool_options where
  "default_options = \<lparr>minCookiePool = 500, maxCookiePool = 700, batchSize = 10,
     visitInterval = 2000, cleanupInterval = 300000, maxRetries = 3,
     maxConcurrentBrowsers = 3\<rparr>"

record pool_event =
  ev_eventId :: string
  ev_url :: string

record pool_manager =
  options :: pool_options
  isRunning :: bool
  activeBrowsers :: js_set

text \<open>The constructor: \<open>opts\<close> is the defaults with the caller's options spread over them.\<close>

definition new_manager :: "pool_options \<Rightarrow> pool_manager" where
  "new_manager opts = \<lparr>options = opts, isRunning = False, activeBrowsers = []\<rparr>"


text \<open>
  \<^verbatim>\<open>startNewBrowserSession\<close>: \<open>event\<close> is what \<^verbatim>\<open>EventService.getRandomEvent()\<close>
  returned (\<open>None\<close> when it found no event or threw), \<open>sessionId\<close> the fresh
  \<^verbatim>\<open>crypto.randomUUID()\<close>.  The session itself runs detached; when it settles,
  \<open>sessionSettled\<close> removes its id.
\<close>

definition startNewBrowserSession ::
  "pool_event option \<Rightarrow> string \<Rightarrow> pool_manager \<Rightarrow> pool_manager" where
  "startNewBrowserSession event sessionId m =
     (case event of
        None \<Rightarrow> m
      | Some e \<Rightarrow> m\<lparr>activeBrowsers := Set_add sessionId (activeBrowsers m)\<rparr>)"









section \<open>Runs of the artifact store\<close>

text \<open>
  What the collection guarantees of its documents: \<^verbatim>\<open>_id\<close>s are distinct and below the
  next one to hand out, and the unique index keeps \<open>cookieId\<close>s distinct.
\<close>

definition wf_store :: "cookie_store \<Rightarrow> bool" where
  "wf_store s =
     (distinct (map oid (docs s)) \<and> distinct (map cookieId (docs s))
      \<and> list_all (\<lambda>d. oid d < next_oid s) (docs s))"

definition doc_by_oid :: "cookie_store \<Rightarrow> nat \<Rightarrow> cookie option" where
  "doc_by_oid s i = findOne (\<lambda>d. oid d = i) (docs s)"

text \<open>The calls that write to the collection, and a sequence of them run in order.\<close>

datatype store_call =
    StoreCookies int string cookies_data store_options
  | GetBestCookies int criteria
  | UpdateCookieUsage int string
  | UpdateCookieQuality int string bool
  | CleanupExpiredCookies int
  | Cleanup int

fun apply_call :: "store_call \<Rightarrow> cookie_store \<Rightarrow> cookie_store" where
  "apply_call (StoreCookies now cid cookiesData opts) s =
     (case storeCookies now cid cookiesData opts s of Inl e \<Rightarrow> s | Inr (r, s') \<Rightarrow> s')"
| "apply_call (GetBestCookies now crit) s = snd (getBestCookies now crit s)"
| "apply_call (UpdateCookieUsage now cid) s = snd (updateCookieUsage now cid s)"
| "apply_call (UpdateCookieQuality now cid success) s =
     (case updateCookieQuality now cid success s of Inl e \<Rightarrow> s | Inr (r, s') \<Rightarrow> s')"
| "apply_call (CleanupExpiredCookies now) s = snd (cleanupExpiredCookies now s)"
| "apply_call (Cleanup now) s = snd (cleanup now s)"

definition store_run :: "store_call list \<Rightarrow> cookie_store \<Rightarrow> cookie_store" where
  "store_run calls s = fold apply_call calls s"

text \<open>Failure feedback for one artifact at each of the given times, in order.\<close>

definition failures :: "int list \<Rightarrow> string \<Rightarrow> cookie_store \<Rightarrow> cookie_store" where
  "failures ts cid s = store_run (map (\<lambda>t. UpdateCookieQuality t cid False) ts) s"

text \<open>
  A consumer that asks for the best artifact at each of the given times, in order: the
  \<^verbatim>\<open>_id\<close> each query returned, or \<open>None\<close>.
\<close>

fun served :: "int list \<Rightarrow> criteria \<Rightarrow> cookie_store \<Rightarrow> nat option list" where
  "served [] crit s = []"
| "served (t # ts) crit s =
     (case getBestCookies t crit s of
        (r, s') \<Rightarrow> map_option oid r # served ts crit s')"

section \<open>Auxiliary definitions\<close>

text \<open>
  The document the feedback call leaves behind, written out field by field: on success
  and on failure.
\<close>

definition quality_success :: "int \<Rightarrow> cookie \<Rightarrow> cookie" where
  "quality_success now c =
     c\<lparr>quality_lastSuccessful := now, quality_score := min 100 (quality_score c + 1),
       updatedAt := now\<rparr>"

definition quality_failure :: "int \<Rightarrow> cookie \<Rightarrow> cookie" where
  "quality_failure now c =
     (if max 0 (quality_score c - 5) < 20
      then c\<lparr>quality_score := max 0 (quality_score c - 5), status := Failed,
             validity_isValid := False, updatedAt := now\<rparr>
      else c\<lparr>quality_score := max 0 (quality_score c - 5), updatedAt := now\<rparr>)"

text \<open>
  The artifact with \<^verbatim>\<open>_id\<close> \<open>i\<close> has been handed out already, and every document that
  carries that \<^verbatim>\<open>_id\<close> has the status \<^verbatim>\<open>failed\<close>.
\<close>

definition failed_for_good :: "nat \<Rightarrow> cookie_store \<Rightarrow> bool" where
  "failed_for_good i s =
     (i < next_oid s \<and> list_all (\<lambda>d. oid d = i \<longrightarrow> status d = Failed) (docs s))"


section \<open>Example data\<close>

definition example_cookie :: cookie where
  "example_cookie = \<lparr>oid = 0, cookieId = ''a'', cookies = DataArray [],
     source_eventId = None, source_refreshId = None, source_proxy = None,
     source_userAgent = None, metadata_domain = ''ticketmaster.com'',
     metadata_originalFormat = ''internal'', tags = [], validity_isValid = True,
     validity_expiresAt = Some 86400000, validity_lastUsed = 0, validity_usageCount = 0,
     quality_score = 100, quality_successRate = 100, quality_lastSuccessful = 0,
     status = Active, createdAt = 0, updatedAt = 0\<rparr>"

definition example_store :: cookie_store where
  "example_store = \<lparr>docs = [example_cookie], next_oid = 1\<rparr>"




definition proxy_a :: proxy_entry where
  "proxy_a = \<lparr>proxy = ''10.0.0.1:8080'', username = ''u'', password = ''p''\<rparr>"

definition proxy_b :: proxy_entry where
  "proxy_b = \<lparr>proxy = ''10.0.0.2:8080'', username = ''u'', password = ''p''\<rparr>"

definition example_refresh :: refresh where
  "example_refresh = \<lparr>refreshId = ''r1'', r_status = In_progress, eventId = JStr ''E1'',
     startTime = 1000, r_proxy = JStr ''no_proxy'', r_metadata = [],
     completionTime = None, nextScheduledRefresh = None, cookieCount = None,
     retryCount = None, duration = None, errorMessage = None, consecutiveFailures = None\<rparr>"

definition attempt1 :: refresh where
  "attempt1 = \<lparr>refreshId = ''r1'', r_status = In_progress, eventId = JStr ''E1'',
     startTime = 1000, r_proxy = JStr ''no_proxy'',
     r_metadata = [(''userAgent'', ''cookies-service/1.0''), (''source'', ''api'')],
     completionTime = None, nextScheduledRefresh = None, cookieCount = None,
     retryCount = None, duration = None, errorMessage = None, consecutiveFailures = None\<rparr>"

definition attempt1_failed :: refresh where
  "attempt1_failed = attempt1\<lparr>r_status := Failed_refresh, completionTime := Some 2000,
     nextScheduledRefresh := Some 302000, retryCount := Some 0, duration := Some 1000,
     errorMessage := Some ''timeout'', consecutiveFailures := Some 1\<rparr>"

definition attempt2 :: refresh where
  "attempt2 = attempt1\<lparr>refreshId := ''r2'', startTime := 3000\<rparr>"

definition attempt2_failed :: refresh where
  "attempt2_failed = attempt2\<lparr>r_status := Failed_refresh, completionTime := Some 4000,
     nextScheduledRefresh := Some 304000, retryCount := Some 0, duration := Some 1000,
     errorMessage := Some ''timeout'', consecutiveFailures := Some 1\<rparr>"

definition one_browser :: pool_options where
  "one_browser = default_options\<lparr>maxConcurrentBrowsers := 1\<rparr>"

definition example_event :: pool_event where
  "example_event = \<lparr>ev_eventId = ''E1'', ev_url = ''https://www.ticketmaster.com/event/E1''\<rparr>"

section \<open>Lemmas on collections\<close>

lemma find_distinct_key:
  "distinct (map f ds) \<Longrightarrow> c \<in> set ds \<Longrightarrow> find (\<lambda>d. f d = f c) ds = Some c"
  by (induction ds) (auto simp: image_iff)

lemma map_updateOne:
  "(\<And>d. f (g d) = f d) \<Longrightarrow> map f (updateOne q g ds) = map f ds"
  by (induction ds) auto

lemma find_updateOne_key:
  "distinct (map f ds) \<Longrightarrow> c \<in> set ds \<Longrightarrow> f (g c) = f c \<Longrightarrow>
   find (\<lambda>d. f d = f c) (updateOne (\<lambda>d. f d = f c) g ds) = Some (g c)"
  by (induction ds) (auto simp: image_iff)

lemma set_updateOne_pred:
  "list_all P ds \<Longrightarrow> (\<And>d. P d \<Longrightarrow> P (g d)) \<Longrightarrow> list_all P (updateOne q g ds)"
  by (induction ds) auto

lemma updateOne_result_mem:
  "find q ds = Some c \<Longrightarrow> g c \<in> set (updateOne q g ds)"
  by (induction ds) (auto split: if_splits)

lemma updateOne_distinct_key:
  assumes "distinct (map k rs)" "find q rs = Some d" "\<And>r. q r \<Longrightarrow> k r = x"
    "\<And>r. k (f r) = k r"
  shows "\<forall>r \<in> set (updateOne q f rs). k r = x \<longrightarrow> r = f d"
  using assms(1,2)
proof (induction rs)
  case Nil
  then show ?case by simp
next
  case (Cons a rs)
  show ?case
  proof (cases "q a")
    case True
    with Cons.prems have "d = a" by simp
    moreover from True have "k a = x" by (rule assms(3))
    ultimately show ?thesis using True Cons.prems(1) by (auto simp: image_iff)
  next
    case False
    with Cons.prems have f: "find q rs = Some d" "distinct (map k rs)" by simp_all
    then have "d \<in> set rs" "q d" by (auto simp: find_Some_iff)
    then have "k d = x" "k d \<in> k ` set rs" using assms(3) by auto
    with Cons.prems(1) have "k a \<noteq> x" by auto
    with False Cons.IH[OF f(2) f(1)] show ?thesis by simp
  qed
qed

lemma snd_findOneAndUpdate: "snd (findOneAndUpdate q f ds) = updateOne q f ds"
proof (cases "find q ds")
  case None
  then have "\<forall>d \<in> set ds. \<not> q d" by (simp add: find_None_iff)
  then have "updateOne q f ds = ds" by (induction ds) auto
  with None show ?thesis by (simp add: findOneAndUpdate_def findOne_def)
next
  case (Some d)
  then show ?thesis by (simp add: findOneAndUpdate_def findOne_def)
qed

lemma snd_findByIdAndUpdate:
  "snd (findByIdAndUpdate now i f ds)
     = updateOne (\<lambda>d. oid d = i) (\<lambda>d. (f d)\<lparr>updatedAt := now\<rparr>) ds"
  by (simp add: findByIdAndUpdate_def snd_findOneAndUpdate)

lemma wf_store_updateOne:
  assumes "wf_store s" "\<And>d. oid (g d) = oid d" "\<And>d. cookieId (g d) = cookieId d"
  shows "wf_store (s\<lparr>docs := updateOne q g (docs s)\<rparr>)"
proof -
  have "list_all (\<lambda>d. oid d < next_oid s) (updateOne q g (docs s))"
    using assms(1) assms(2) by (intro set_updateOne_pred) (simp_all add: wf_store_def)
  then show ?thesis
    using assms by (simp add: wf_store_def map_updateOne)
qed

lemma findByIdAndUpdate_member:
  assumes "distinct (map oid ds)" "c \<in> set ds"
  shows "findByIdAndUpdate now (oid c) f ds
           = (Some ((f c)\<lparr>updatedAt := now\<rparr>),
              updateOne (\<lambda>d. oid d = oid c) (\<lambda>d. (f d)\<lparr>updatedAt := now\<rparr>) ds)"
  using assms
  by (simp add: findByIdAndUpdate_def findOneAndUpdate_def findOne_def find_distinct_key)

lemma findByIdAndUpdate_wf:
  fixes now :: int and f :: "cookie \<Rightarrow> cookie"
  assumes "wf_store s" "c \<in> set (docs s)" "\<And>d. oid (f d) = oid d"
    "\<And>d. cookieId (f d) = cookieId d"
  defines "g \<equiv> \<lambda>d. (f d)\<lparr>updatedAt := now\<rparr>"
  shows "findByIdAndUpdate now (oid c) f (docs s)
           = (Some (g c), updateOne (\<lambda>d. oid d = oid c) g (docs s))"
    and "doc_by_oid (s\<lparr>docs := updateOne (\<lambda>d. oid d = oid c) g (docs s)\<rparr>) (oid c) = Some (g c)"
    and "wf_store (s\<lparr>docs := updateOne (\<lambda>d. oid d = oid c) g (docs s)\<rparr>)"
    and "g c \<in> set (updateOne (\<lambda>d. oid d = oid c) g (docs s))"
proof -
  from assms(1) have d: "distinct (map oid (docs s))" by (simp add: wf_store_def)
  show "findByIdAndUpdate now (oid c) f (docs s)
           = (Some (g c), updateOne (\<lambda>d. oid d = oid c) g (docs s))"
    unfolding g_def using d assms(2) by (rule findByIdAndUpdate_member)
  have "find (\<lambda>d. oid d = oid c) (updateOne (\<lambda>d. oid d = oid c) g (docs s)) = Some (g c)"
    using d assms(2) by (intro find_updateOne_key) (simp_all add: g_def assms(3))
  then show "doc_by_oid (s\<lparr>docs := updateOne (\<lambda>d. oid d = oid c) g (docs s)\<rparr>) (oid c)
      = Some (g c)"
    by (simp add: doc_by_oid_def findOne_def)
  show "wf_store (s\<lparr>docs := updateOne (\<lambda>d. oid d = oid c) g (docs s)\<rparr>)"
    using assms(1) by (rule wf_store_updateOne) (simp_all add: g_def assms(3,4))
  have "find (\<lambda>d. oid d = oid c) (docs s) = Some c"
    using d assms(2) by (rule find_distinct_key)
  then show "g c \<in> set (updateOne (\<lambda>d. oid d = oid c) g (docs s))"
    by (rule updateOne_result_mem)
qed

lemmas store_eval = getBestCookies_def findOne_best_def getBestCookies_query_def matches_def
  no_criteria_def example_cookie_def date_gt_def wf_store_def doc_by_oid_def findOne_def
  findByIdAndUpdate_def findOneAndUpdate_def

section \<open>Artifact store: selection\<close>

lemma findOne_best_Some:
  assumes "findOne_best q ds = Some c"
  shows "c \<in> set ds \<and> matches q c"
proof -
  let ?xs = "sort_key (\<lambda>d. (- quality_score d, validity_usageCount d)) (filter (matches q) ds)"
  from assms obtain rest where "?xs = c # rest"
    by (auto simp: findOne_best_def split: list.splits)
  then have "c \<in> set ?xs" by simp
  then show ?thesis by simp
qed

lemma findOne_best_None:
  "findOne_best q ds = None \<longleftrightarrow> (\<forall>d \<in> set ds. \<not> matches q d)"
proof -
  let ?xs = "sort_key (\<lambda>d. (- quality_score d, validity_usageCount d)) (filter (matches q) ds)"
  have "findOne_best q ds = None \<longleftrightarrow> ?xs = []"
    by (simp add: findOne_best_def split: list.splits)
  also have "\<dots> \<longleftrightarrow> set ?xs = {}" by (simp only: set_empty)
  also have "\<dots> \<longleftrightarrow> (\<forall>d \<in> set ds. \<not> matches q d)" by auto
  finally show ?thesis .
qed

lemma getBestCookies_query_base:
  assumes "matches (getBestCookies_query now crit) c"
  shows "status c = Active" "validity_isValid c" "date_gt (validity_expiresAt c) now"
    "50 \<le> quality_score c"
  using assms by (simp_all add: getBestCookies_query_def matches_def Let_def)

lemma getBestCookies_query_default_usage:
  assumes "matches (getBestCookies_query now crit) c" "c_maxUsageCount crit = None"
  shows "validity_usageCount c < 10"
  using assms by (simp add: getBestCookies_query_def matches_def Let_def)

lemma getBestCookies_Some:
  assumes "getBestCookies now crit s = (Some c, s')"
  shows "c \<in> set (docs s) \<and> matches (getBestCookies_query now crit) c"
proof -
  from assms have "findOne_best (getBestCookies_query now crit) (docs s) = Some c"
    by (auto simp: getBestCookies_def split: option.splits)
  then show ?thesis by (rule findOne_best_Some)
qed

lemma getBestCookies_None:
  assumes "\<forall>d \<in> set (docs s). \<not> matches (getBestCookies_query now crit) d"
  shows "getBestCookies now crit s = (None, s)"
proof -
  from assms have "findOne_best (getBestCookies_query now crit) (docs s) = None"
    by (simp add: findOne_best_None)
  then show ?thesis by (simp add: getBestCookies_def)
qed

lemma getBestCookies_counts_use:
  assumes "wf_store s" "getBestCookies now crit s = (Some c, s')"
  shows "doc_by_oid s' (oid c)
           = Some (c\<lparr>validity_usageCount := validity_usageCount c + 1,
                     validity_lastUsed := now, updatedAt := now\<rparr>)"
proof -
  let ?g = "\<lambda>d. d\<lparr>validity_usageCount := validity_usageCount d + 1,
                     validity_lastUsed := now, updatedAt := now\<rparr>"
  from assms(2) have m: "c \<in> set (docs s)" using getBestCookies_Some by blast
  from assms(2) have s': "s' = s\<lparr>docs := updateOne (\<lambda>d. oid d = oid c) ?g (docs s)\<rparr>"
    by (auto simp: getBestCookies_def snd_findByIdAndUpdate split: option.splits)
  from assms(1) m have "find (\<lambda>d. oid d = oid c) (updateOne (\<lambda>d. oid d = oid c) ?g (docs s))
      = Some (?g c)"
    unfolding wf_store_def by (intro find_updateOne_key) simp_all
  then show ?thesis by (simp add: s' doc_by_oid_def findOne_def)
qed

text \<open>
  C1.  Whatever the collection and the criteria, a document \<^verbatim>\<open>getBestCookies\<close> returns is
  one of the collection with \<^verbatim>\<open>status = 'active'\<close>, \<^verbatim>\<open>validity.isValid = true\<close> and
  \<^verbatim>\<open>validity.expiresAt\<close> strictly after the time of the query; and when no document of
  the collection expires after that time, the query returns nothing and writes nothing.
\<close>

theorem C1_getBestCookies_unexpired:
  "(\<forall>c s'. getBestCookies now crit s = (Some c, s') \<longrightarrow>
       c \<in> set (docs s) \<and> status c = Active \<and> validity_isValid c = True
       \<and> (\<exists>e. validity_expiresAt c = Some e \<and> now < e))
   \<and> ((\<forall>d \<in> set (docs s). \<forall>e. validity_expiresAt d = Some e \<longrightarrow> e \<le> now) \<longrightarrow>
       getBestCookies now crit s = (None, s))"
proof (intro conjI allI impI)
  fix c s' assume r: "getBestCookies now crit s = (Some c, s')"
  then have m: "matches (getBestCookies_query now crit) c" and "c \<in> set (docs s)"
    using getBestCookies_Some by blast+
  then show "c \<in> set (docs s)" by simp
  from m show "status c = Active" by (rule getBestCookies_query_base)
  from m show "validity_isValid c = True" by (simp add: getBestCookies_query_base)
  from m have "date_gt (validity_expiresAt c) now" by (rule getBestCookies_query_base)
  then show "\<exists>e. validity_expiresAt c = Some e \<and> now < e"
    by (simp add: date_gt_def split: option.splits)
next
  assume past: "\<forall>d \<in> set (docs s). \<forall>e. validity_expiresAt d = Some e \<longrightarrow> e \<le> now"
  have "\<forall>d \<in> set (docs s). \<not> matches (getBestCookies_query now crit) d"
  proof
    fix d assume "d \<in> set (docs s)"
    with past have "\<not> date_gt (validity_expiresAt d) now"
      by (auto simp: date_gt_def split: option.splits)
    then show "\<not> matches (getBestCookies_query now crit) d"
      using getBestCookies_query_base(3) by blast
  qed
  then show "getBestCookies now crit s = (None, s)" by (rule getBestCookies_None)
qed

theorem C1_witness:
  "getBestCookies 90000000 no_criteria example_store = (None, example_store)
   \<and> fst (getBestCookies 400000 no_criteria example_store) = Some example_cookie
   \<and> (\<exists>e. validity_expiresAt example_cookie = Some e \<and> 400000 < e)"
proof -
  have past: "\<forall>d \<in> set (docs example_store). \<forall>e. validity_expiresAt d = Some e \<longrightarrow> e \<le> 90000000"
    by (simp add: example_store_def example_cookie_def)
  have a: "getBestCookies 90000000 no_criteria example_store = (None, example_store)"
    using C1_getBestCookies_unexpired[of 90000000 no_criteria example_store] past by blast
  have b: "getBestCookies 400000 no_criteria example_store
      = (Some example_cookie, snd (getBestCookies 400000 no_criteria example_store))"
    by (simp add: store_eval example_store_def)
  then have c: "\<exists>e. validity_expiresAt example_cookie = Some e \<and> 400000 < e"
    using C1_getBestCookies_unexpired[of 400000 no_criteria example_store] by blast
  from a b c show ?thesis by (metis fst_conv)
qed

text \<open>
  C9.  \<^verbatim>\<open>getBestCookies\<close> never returns a document with a quality score below 50, and
  with the default \<^verbatim>\<open>maxUsageCount\<close> never one used ten times or more: when every
  document has reached ten uses or scores below 50, the default query returns nothing,
  whatever else holds of the documents.  Each successful query counts as one more use
  of the document it returns.
\<close>

theorem C9_default_usage_and_score_filters:
  "(\<forall>c s'. getBestCookies now crit s = (Some c, s') \<longrightarrow>
       50 \<le> quality_score c \<and> (c_maxUsageCount crit = None \<longrightarrow> validity_usageCount c < 10))
   \<and> ((\<forall>d \<in> set (docs s). 10 \<le> validity_usageCount d \<or> quality_score d < 50) \<longrightarrow>
       getBestCookies now no_criteria s = (None, s))
   \<and> (\<forall>c s'. wf_store s \<and> getBestCookies now crit s = (Some c, s') \<longrightarrow>
       doc_by_oid s' (oid c)
         = Some (c\<lparr>validity_usageCount := validity_usageCount c + 1,
                   validity_lastUsed := now, updatedAt := now\<rparr>))"
proof (intro conjI allI impI)
  fix c s' assume "getBestCookies now crit s = (Some c, s')"
  then have m: "matches (getBestCookies_query now crit) c"
    using getBestCookies_Some by blast
  then show "50 \<le> quality_score c" by (rule getBestCookies_query_base)
  assume "c_maxUsageCount crit = None"
  with m show "validity_usageCount c < 10" by (rule getBestCookies_query_default_usage)
next
  assume a: "\<forall>d \<in> set (docs s). 10 \<le> validity_usageCount d \<or> quality_score d < 50"
  have "\<forall>d \<in> set (docs s). \<not> matches (getBestCookies_query now no_criteria) d"
  proof
    fix d assume "d \<in> set (docs s)"
    with a have "10 \<le> validity_usageCount d \<or> quality_score d < 50" by blast
    then show "\<not> matches (getBestCookies_query now no_criteria) d"
      using getBestCookies_query_default_usage[of now no_criteria d]
        getBestCookies_query_base(4)[of now no_criteria d]
      by (auto simp: no_criteria_def)
  qed
  then show "getBestCookies now no_criteria s = (None, s)" by (rule getBestCookies_None)
next
  fix c s' assume "wf_store s \<and> getBestCookies now crit s = (Some c, s')"
  then show "doc_by_oid s' (oid c)
         = Some (c\<lparr>validity_usageCount := validity_usageCount c + 1,
                   validity_lastUsed := now, updatedAt := now\<rparr>)"
    using getBestCookies_counts_use by blast
qed

theorem C9_witness:
  "getBestCookies 600000 no_criteria
      \<lparr>docs = [example_cookie\<lparr>validity_usageCount := 10\<rparr>], next_oid = 1\<rparr>
     = (None, \<lparr>docs = [example_cookie\<lparr>validity_usageCount := 10\<rparr>], next_oid = 1\<rparr>)
   \<and> getBestCookies 600000 no_criteria
      \<lparr>docs = [example_cookie\<lparr>validity_usageCount := 9\<rparr>], next_oid = 1\<rparr>
     = (Some (example_cookie\<lparr>validity_usageCount := 9\<rparr>),
        \<lparr>docs = [example_cookie\<lparr>validity_usageCount := 10, validity_lastUsed := 600000,
                   updatedAt := 600000\<rparr>], next_oid = 1\<rparr>)
   \<and> validity_usageCount (example_cookie\<lparr>validity_usageCount := 9\<rparr>) < 10
   \<and> doc_by_oid \<lparr>docs = [example_cookie\<lparr>validity_usageCount := 10, validity_lastUsed := 600000,
                   updatedAt := 600000\<rparr>], next_oid = 1\<rparr> 0
       = Some (example_cookie\<lparr>validity_usageCount := 10, validity_lastUsed := 600000,
                   updatedAt := 600000\<rparr>)"
proof -
  let ?full = "\<lparr>docs = [example_cookie\<lparr>validity_usageCount := 10\<rparr>], next_oid = 1\<rparr>"
  let ?c9 = "example_cookie\<lparr>validity_usageCount := 9\<rparr>"
  let ?s9 = "\<lparr>docs = [?c9], next_oid = 1\<rparr>"
  let ?c10 = "example_cookie\<lparr>validity_usageCount := 10, validity_lastUsed := 600000,
                   updatedAt := 600000\<rparr>"
  let ?s10 = "\<lparr>docs = [?c10], next_oid = 1\<rparr>"
  note main = C9_default_usage_and_score_filters
  have h: "\<forall>d \<in> set (docs ?full). 10 \<le> validity_usageCount d \<or> quality_score d < 50"
    by simp
  have a: "getBestCookies 600000 no_criteria ?full = (None, ?full)"
    using main[of 600000 no_criteria ?full] h by blast
  have b: "getBestCookies 600000 no_criteria ?s9 = (Some ?c9, ?s10)"
    by (simp add: store_eval)
  have w: "wf_store ?s9" by (simp add: store_eval)
  have n: "c_maxUsageCount no_criteria = None" by (simp add: no_criteria_def)
  from main[of 600000 no_criteria ?s9] b n have c: "validity_usageCount ?c9 < 10" by blast
  from main[of 600000 no_criteria ?s9] b w
  have "doc_by_oid ?s10 (oid ?c9)
      = Some (?c9\<lparr>validity_usageCount := validity_usageCount ?c9 + 1,
                  validity_lastUsed := 600000, updatedAt := 600000\<rparr>)" by blast
  then have d: "doc_by_oid ?s10 0 = Some ?c10" by (simp add: example_cookie_def)
  from a b c d show ?thesis by blast
qed

text \<open>
  A lone artifact, asked for every 400 seconds with the default criteria: ten queries
  return it, the eleventh and the twelfth return nothing, although it is still active,
  valid, unexpired and of score 100.
\<close>

lemma getBestCookies_single:
  "getBestCookies t no_criteria \<lparr>docs = [c], next_oid = n\<rparr>
     = (if status c = Active \<and> validity_isValid c \<and> date_gt (validity_expiresAt c) t
           \<and> 50 \<le> quality_score c \<and> validity_lastUsed c < t - 300000
           \<and> validity_usageCount c < 10
        then (Some c, \<lparr>docs = [c\<lparr>validity_usageCount := validity_usageCount c + 1,
                                 validity_lastUsed := t, updatedAt := t\<rparr>], next_oid = n\<rparr>)
        else (None, \<lparr>docs = [c], next_oid = n\<rparr>))"
  by (simp add: getBestCookies_def findOne_best_def getBestCookies_query_def matches_def
      no_criteria_def findByIdAndUpdate_def findOneAndUpdate_def findOne_def)

theorem lone_artifact_served_ten_times:
  "served [400000, 800000, 1200000, 1600000, 2000000, 2400000, 2800000, 3200000, 3600000,
           4000000, 4400000, 4800000] no_criteria example_store
   = [Some 0, Some 0, Some 0, Some 0, Some 0, Some 0, Some 0, Some 0, Some 0, Some 0, None, None]"
  by (simp add: example_store_def example_cookie_def getBestCookies_single date_gt_def)

section \<open>Artifact store: feedback\<close>

lemma updateCookieQuality_success:
  assumes "wf_store s" "c \<in> set (docs s)"
  shows "\<exists>s1. updateCookieQuality now (cookieId c) True s = Inr (Some (quality_success now c), s1)
           \<and> doc_by_oid s1 (oid c) = Some (quality_success now c) \<and> wf_store s1
           \<and> quality_success now c \<in> set (docs s1)"
proof -
  let ?f = "\<lambda>d. d\<lparr>quality_lastSuccessful := now, quality_score := min 100 (quality_score c + 1)\<rparr>"
  let ?g = "\<lambda>d. (?f d)\<lparr>updatedAt := now\<rparr>"
  from assms have f: "findOne (\<lambda>d. cookieId d = cookieId c) (docs s) = Some c"
    by (simp add: findOne_def wf_store_def find_distinct_key)
  have p: "\<And>d. oid (?f d) = oid d" "\<And>d. cookieId (?f d) = cookieId d" by simp_all
  note m = findByIdAndUpdate_wf[OF assms p, of now]
  have gc: "?g c = quality_success now c" by (simp add: quality_success_def)
  have "updateCookieQuality now (cookieId c) True s
          = Inr (Some (?g c), s\<lparr>docs := updateOne (\<lambda>d. oid d = oid c) ?g (docs s)\<rparr>)"
    using f m(1) by (simp add: updateCookieQuality_def Let_def)
  with m(2,3,4) gc show ?thesis by auto
qed

lemma updateCookieQuality_failure:
  assumes "wf_store s" "c \<in> set (docs s)"
  shows "\<exists>s1. updateCookieQuality now (cookieId c) False s = Inr (Some (quality_failure now c), s1)
           \<and> doc_by_oid s1 (oid c) = Some (quality_failure now c) \<and> wf_store s1
           \<and> quality_failure now c \<in> set (docs s1)"
proof -
  let ?f = "if max 0 (quality_score c - 5) < 20
            then (\<lambda>d. d\<lparr>quality_score := max 0 (quality_score c - 5), status := Failed,
                        validity_isValid := False\<rparr>)
            else (\<lambda>d. d\<lparr>quality_score := max 0 (quality_score c - 5)\<rparr>)"
  let ?g = "\<lambda>d. (?f d)\<lparr>updatedAt := now\<rparr>"
  from assms have f: "findOne (\<lambda>d. cookieId d = cookieId c) (docs s) = Some c"
    by (simp add: findOne_def wf_store_def find_distinct_key)
  have p: "\<And>d. oid (?f d) = oid d" "\<And>d. cookieId (?f d) = cookieId d" by simp_all
  note m = findByIdAndUpdate_wf[OF assms p, of now]
  have gc: "?g c = quality_failure now c" by (simp add: quality_failure_def)
  have "updateCookieQuality now (cookieId c) False s
          = Inr (Some (?g c), s\<lparr>docs := updateOne (\<lambda>d. oid d = oid c) ?g (docs s)\<rparr>)"
    using f m(1) by (simp add: updateCookieQuality_def Let_def)
  with m(2,3,4) gc show ?thesis by auto
qed

lemma failures_Nil: "failures [] cid s = s"
  by (simp add: failures_def store_run_def)

lemma failures_Cons:
  "failures (t # ts) cid s =
     failures ts cid (case updateCookieQuality t cid False s of Inl e \<Rightarrow> s | Inr (r, s') \<Rightarrow> s')"
  by (simp add: failures_def store_run_def)

lemma quality_failure_fields:
  "oid (quality_failure now c) = oid c" "cookieId (quality_failure now c) = cookieId c"
  "quality_score (quality_failure now c) = max 0 (quality_score c - 5)"
  "quality_score (quality_failure now c) < 20 \<Longrightarrow>
     status (quality_failure now c) = Failed \<and> \<not> validity_isValid (quality_failure now c)"
  by (auto simp: quality_failure_def split: if_splits)

lemma failures_score:
  assumes "wf_store s" "c \<in> set (docs s)" "0 \<le> quality_score c"
  shows "\<exists>c'. doc_by_oid (failures ts (cookieId c) s) (oid c) = Some c'
           \<and> wf_store (failures ts (cookieId c) s)
           \<and> quality_score c' = max 0 (quality_score c - 5 * int (length ts))
           \<and> (ts \<noteq> [] \<and> quality_score c' < 20 \<longrightarrow> status c' = Failed \<and> \<not> validity_isValid c')"
  using assms
proof (induction ts arbitrary: s c)
  case Nil
  then have "doc_by_oid s (oid c) = Some c"
    by (simp add: doc_by_oid_def findOne_def wf_store_def find_distinct_key)
  with Nil show ?case by (simp add: failures_Nil)
next
  case (Cons t ts)
  let ?c1 = "quality_failure t c"
  from updateCookieQuality_failure[OF Cons.prems(1,2), of t] obtain s1 where
    u: "updateCookieQuality t (cookieId c) False s = Inr (Some ?c1, s1)"
    and d: "doc_by_oid s1 (oid c) = Some ?c1" and w: "wf_store s1" and m: "?c1 \<in> set (docs s1)"
    by blast
  have step: "failures (t # ts) (cookieId c) s = failures ts (cookieId ?c1) s1"
    using u by (simp add: failures_Cons quality_failure_fields)
  have nn: "0 \<le> quality_score ?c1" by (simp add: quality_failure_fields)
  from Cons.IH[OF w m nn] obtain c' where
    ih: "doc_by_oid (failures ts (cookieId ?c1) s1) (oid ?c1) = Some c'"
      "wf_store (failures ts (cookieId ?c1) s1)"
      "quality_score c' = max 0 (quality_score ?c1 - 5 * int (length ts))"
      "ts \<noteq> [] \<and> quality_score c' < 20 \<longrightarrow> status c' = Failed \<and> \<not> validity_isValid c'"
    by blast
  have sc: "quality_score c' = max 0 (quality_score c - 5 * int (length (t # ts)))"
    using ih(3) by (simp add: quality_failure_fields)
  have st: "quality_score c' < 20 \<longrightarrow> status c' = Failed \<and> \<not> validity_isValid c'"
  proof (cases "ts = []")
    case True
    then have "failures ts (cookieId ?c1) s1 = s1" by (simp add: failures_Nil)
    with ih(1) d have "c' = ?c1" by (simp add: quality_failure_fields)
    then show ?thesis using quality_failure_fields(4) by blast
  next
    case False
    with ih(4) show ?thesis by simp
  qed
  show ?case
    using ih(1,2) sc st by (simp add: step quality_failure_fields)
qed

subsection \<open>A failed artifact stays failed\<close>

lemma failed_for_good_updateOne:
  assumes "failed_for_good i s"
    and "\<And>d. oid (g d) = oid d"
    and "\<And>d. status d = Failed \<Longrightarrow> status (g d) = Failed"
  shows "failed_for_good i (s\<lparr>docs := updateOne q g (docs s)\<rparr>)"
proof -
  have "list_all (\<lambda>d. oid d = i \<longrightarrow> status d = Failed) (updateOne q g (docs s))"
    using assms by (intro set_updateOne_pred) (simp_all add: failed_for_good_def)
  with assms(1) show ?thesis by (simp add: failed_for_good_def)
qed

lemma failed_for_good_call:
  assumes "failed_for_good i s"
  shows "failed_for_good i (apply_call call s)"
proof (cases call)
  case (StoreCookies now cid cookiesData opts)
  show ?thesis
    using assms unfolding StoreCookies
    by (auto simp: storeCookies_def failed_for_good_def Let_def list_all_iff
        split: cookies_data.splits)
next
  case (GetBestCookies now crit)
  show ?thesis
  proof (cases "findOne_best (getBestCookies_query now crit) (docs s)")
    case None
    with assms show ?thesis by (simp add: GetBestCookies getBestCookies_def)
  next
    case (Some c)
    then show ?thesis
      using failed_for_good_updateOne[OF assms, of _ "\<lambda>d. oid d = oid c"]
      by (simp add: GetBestCookies getBestCookies_def snd_findByIdAndUpdate)
  qed
next
  case (UpdateCookieUsage now cid)
  show ?thesis
    using failed_for_good_updateOne[OF assms, of _ "\<lambda>d. cookieId d = cid"]
    by (simp add: UpdateCookieUsage updateCookieUsage_def snd_findOneAndUpdate
        case_prod_beta)
next
  case (UpdateCookieQuality now cid success)
  show ?thesis
  proof (cases "findOne (\<lambda>d. cookieId d = cid) (docs s)")
    case None
    with assms show ?thesis by (simp add: UpdateCookieQuality updateCookieQuality_def)
  next
    case (Some c)
    then show ?thesis
      using failed_for_good_updateOne[OF assms, of _ "\<lambda>d. oid d = oid c"]
      by (simp add: UpdateCookieQuality updateCookieQuality_def Let_def snd_findByIdAndUpdate
          case_prod_beta)
  qed
next
  case (CleanupExpiredCookies now)
  show ?thesis
    using assms
    by (simp add: CleanupExpiredCookies cleanupExpiredCookies_def Let_def deleteMany_def
        failed_for_good_def list_all_iff)
next
  case (Cleanup now)
  show ?thesis
    using assms
    by (simp add: Cleanup cleanup_def Let_def deleteMany_def failed_for_good_def list_all_iff)
qed

lemma failed_for_good_run:
  "failed_for_good i s \<Longrightarrow> failed_for_good i (store_run calls s)"
  unfolding store_run_def
  by (induction calls arbitrary: s) (simp_all add: failed_for_good_call)

lemma failed_for_good_not_served:
  assumes "failed_for_good i s" "getBestCookies now crit s = (Some d, s')"
  shows "oid d \<noteq> i"
proof
  assume "oid d = i"
  from assms(2) have "d \<in> set (docs s)" "status d = Active"
    using getBestCookies_Some getBestCookies_query_base(1) by blast+
  with assms(1) \<open>oid d = i\<close> show False
    by (auto simp: failed_for_good_def list_all_iff)
qed

text \<open>
  C2.  For an artifact \<open>c\<close> of a well-formed collection, \<^verbatim>\<open>updateCookieQuality\<close> with
  \<^verbatim>\<open>success = true\<close> sets the score to \<open>min 100 (score + 1)\<close> and \<^verbatim>\<open>lastSuccessful\<close> to the
  time of the call, and nothing else but the timestamp; with \<^verbatim>\<open>success = false\<close> it sets
  the score to \<open>max 0 (score - 5)\<close> and, exactly when that is below 20, the status to
  \<^verbatim>\<open>failed\<close> and \<^verbatim>\<open>validity.isValid\<close> to false.  After 17 failure reports on an artifact of
  score 100 its score is 15, its status \<^verbatim>\<open>failed\<close>, and no later query returns it,
  whatever calls are made on the store in between.
\<close>

theorem C2_updateCookieQuality:
  "wf_store s \<and> c \<in> set (docs s) \<longrightarrow>
   (\<exists>c1 s1. updateCookieQuality now (cookieId c) True s = Inr (Some c1, s1)
      \<and> doc_by_oid s1 (oid c) = Some c1
      \<and> c1 = c\<lparr>quality_lastSuccessful := now,
                 quality_score := min 100 (quality_score c + 1), updatedAt := now\<rparr>)
   \<and> (\<exists>c2 s2. updateCookieQuality now (cookieId c) False s = Inr (Some c2, s2)
      \<and> doc_by_oid s2 (oid c) = Some c2
      \<and> quality_score c2 = max 0 (quality_score c - 5)
      \<and> (if quality_score c2 < 20
          then c2 = c\<lparr>quality_score := max 0 (quality_score c - 5), status := Failed,
                       validity_isValid := False, updatedAt := now\<rparr>
          else c2 = c\<lparr>quality_score := max 0 (quality_score c - 5), updatedAt := now\<rparr>))
   \<and> (quality_score c = 100 \<and> length ts = 17 \<longrightarrow>
        (\<exists>c'. doc_by_oid (failures ts (cookieId c) s) (oid c) = Some c'
           \<and> quality_score c' = 15 \<and> status c' = Failed \<and> validity_isValid c' = False)
        \<and> (\<forall>calls t crit d s'.
              getBestCookies t crit (store_run calls (failures ts (cookieId c) s)) = (Some d, s')
              \<longrightarrow> oid d \<noteq> oid c))"
proof (intro impI conjI; (elim conjE)?)
  assume w: "wf_store s" and m: "c \<in> set (docs s)"
  from updateCookieQuality_success[OF w m, of now]
  show "\<exists>c1 s1. updateCookieQuality now (cookieId c) True s = Inr (Some c1, s1)
      \<and> doc_by_oid s1 (oid c) = Some c1
      \<and> c1 = c\<lparr>quality_lastSuccessful := now,
                 quality_score := min 100 (quality_score c + 1), updatedAt := now\<rparr>"
    by (auto simp: quality_success_def)
next
  assume w: "wf_store s" and m: "c \<in> set (docs s)"
  from updateCookieQuality_failure[OF w m, of now] obtain s2 where
    "updateCookieQuality now (cookieId c) False s = Inr (Some (quality_failure now c), s2)"
    "doc_by_oid s2 (oid c) = Some (quality_failure now c)"
    by blast
  moreover have "quality_score (quality_failure now c) = max 0 (quality_score c - 5)"
    by (simp add: quality_failure_fields)
  moreover have "if quality_score (quality_failure now c) < 20
          then quality_failure now c = c\<lparr>quality_score := max 0 (quality_score c - 5),
                 status := Failed, validity_isValid := False, updatedAt := now\<rparr>
          else quality_failure now c = c\<lparr>quality_score := max 0 (quality_score c - 5),
                 updatedAt := now\<rparr>"
    by (simp add: quality_failure_def)
  ultimately show "\<exists>c2 s2. updateCookieQuality now (cookieId c) False s = Inr (Some c2, s2)
      \<and> doc_by_oid s2 (oid c) = Some c2
      \<and> quality_score c2 = max 0 (quality_score c - 5)
      \<and> (if quality_score c2 < 20
          then c2 = c\<lparr>quality_score := max 0 (quality_score c - 5), status := Failed,
                       validity_isValid := False, updatedAt := now\<rparr>
          else c2 = c\<lparr>quality_score := max 0 (quality_score c - 5), updatedAt := now\<rparr>)"
    by blast
next
  assume w: "wf_store s" and m: "c \<in> set (docs s)"
    and sc: "quality_score c = 100" and len: "length ts = 17"
  let ?s = "failures ts (cookieId c) s"
  from sc have nn: "0 \<le> quality_score c" by simp
  from failures_score[OF w m nn, of ts] obtain c' where
    c': "doc_by_oid ?s (oid c) = Some c'" "wf_store ?s"
      "quality_score c' = max 0 (quality_score c - 5 * int (length ts))"
      "ts \<noteq> [] \<and> quality_score c' < 20 \<longrightarrow> status c' = Failed \<and> \<not> validity_isValid c'"
    by blast
  from c'(3) sc len have s15: "quality_score c' = 15" by simp
  from len have "ts \<noteq> []" by auto
  with c'(4) s15 have f: "status c' = Failed" "validity_isValid c' = False" by simp_all
  from c'(1) s15 f
  show "\<exists>c'. doc_by_oid ?s (oid c) = Some c'
           \<and> quality_score c' = 15 \<and> status c' = Failed \<and> validity_isValid c' = False"
    by blast
  have one: "list_all (\<lambda>d. oid d = oid c \<longrightarrow> d = c') (docs ?s)"
  proof -
    have dist: "distinct (map oid (docs ?s))" using c'(2) by (simp add: wf_store_def)
    from c'(1) have "c' \<in> set (docs ?s)" "oid c' = oid c"
      by (auto simp: doc_by_oid_def findOne_def find_Some_iff)
    with dist show ?thesis
      by (auto simp: list_all_iff distinct_map inj_on_def)
  qed
  have lt: "oid c < next_oid ?s"
  proof -
    from c'(1) have "c' \<in> set (docs ?s)" "oid c' = oid c"
      by (auto simp: doc_by_oid_def findOne_def find_Some_iff)
    with c'(2) show ?thesis by (auto simp: wf_store_def list_all_iff)
  qed
  have good: "failed_for_good (oid c) ?s"
    using one lt f(1) by (auto simp: failed_for_good_def list_all_iff)
  show "\<forall>calls t crit d s'.
          getBestCookies t crit (store_run calls ?s) = (Some d, s') \<longrightarrow> oid d \<noteq> oid c"
    using failed_for_good_not_served[OF failed_for_good_run[OF good]] by blast
qed

theorem C2_witness:
  "(\<exists>c1 s1. updateCookieQuality 5000 ''a'' True example_store = Inr (Some c1, s1)
      \<and> c1 = example_cookie\<lparr>quality_lastSuccessful := 5000, quality_score := 100,
                updatedAt := 5000\<rparr>)
   \<and> (\<exists>c2 s2. updateCookieQuality 5000 ''a'' False example_store = Inr (Some c2, s2)
      \<and> c2 = example_cookie\<lparr>quality_score := 95, updatedAt := 5000\<rparr>)
   \<and> (\<exists>c'. doc_by_oid (failures (replicate 17 5000) ''a'' example_store) 0 = Some c'
      \<and> quality_score c' = 15 \<and> status c' = Failed \<and> validity_isValid c' = False)
   \<and> \<not> (\<exists>d s'. getBestCookies 6000 no_criteria
              (store_run [] (failures (replicate 17 5000) ''a'' example_store)) = (Some d, s')
           \<and> oid d = 0)"
proof -
  have w: "wf_store example_store \<and> example_cookie \<in> set (docs example_store)"
    by (simp add: example_store_def wf_store_def example_cookie_def)
  have f: "quality_score example_cookie = 100 \<and> length (replicate 17 (5000::int)) = 17"
    by (simp add: example_cookie_def)
  have id: "cookieId example_cookie = ''a''" "oid example_cookie = 0"
    by (simp_all add: example_cookie_def)
  have main: "wf_store example_store \<and> example_cookie \<in> set (docs example_store) \<longrightarrow>
   (\<exists>c1 s1. updateCookieQuality 5000 ''a'' True example_store = Inr (Some c1, s1)
      \<and> doc_by_oid s1 0 = Some c1
      \<and> c1 = example_cookie\<lparr>quality_lastSuccessful := 5000,
                 quality_score := min 100 (quality_score example_cookie + 1), updatedAt := 5000\<rparr>)
   \<and> (\<exists>c2 s2. updateCookieQuality 5000 ''a'' False example_store = Inr (Some c2, s2)
      \<and> doc_by_oid s2 0 = Some c2
      \<and> quality_score c2 = max 0 (quality_score example_cookie - 5)
      \<and> (if quality_score c2 < 20
          then c2 = example_cookie\<lparr>quality_score := max 0 (quality_score example_cookie - 5),
                       status := Failed, validity_isValid := False, updatedAt := 5000\<rparr>
          else c2 = example_cookie\<lparr>quality_score := max 0 (quality_score example_cookie - 5),
                       updatedAt := 5000\<rparr>))
   \<and> (quality_score example_cookie = 100 \<and> length (replicate 17 (5000::int)) = 17 \<longrightarrow>
        (\<exists>c'. doc_by_oid (failures (replicate 17 5000) ''a'' example_store) 0 = Some c'
           \<and> quality_score c' = 15 \<and> status c' = Failed \<and> validity_isValid c' = False)
        \<and> (\<forall>calls t crit d s'.
              getBestCookies t crit
                (store_run calls (failures (replicate 17 5000) ''a'' example_store)) = (Some d, s')
              \<longrightarrow> oid d \<noteq> 0))"
    using C2_updateCookieQuality[of example_store example_cookie 5000 "replicate 17 5000"]
    by (simp only: id)
  from main w obtain c1 s1 where
    1: "updateCookieQuality 5000 ''a'' True example_store = Inr (Some c1, s1)"
       "c1 = example_cookie\<lparr>quality_lastSuccessful := 5000,
              quality_score := min 100 (quality_score example_cookie + 1), updatedAt := 5000\<rparr>"
    by blast
  from 1(2) have e1: "c1 = example_cookie\<lparr>quality_lastSuccessful := 5000, quality_score := 100,
                updatedAt := 5000\<rparr>" by (simp add: example_cookie_def)
  from main w obtain c2 s2 where
    2: "updateCookieQuality 5000 ''a'' False example_store = Inr (Some c2, s2)"
       "quality_score c2 = max 0 (quality_score example_cookie - 5)"
       "if quality_score c2 < 20
          then c2 = example_cookie\<lparr>quality_score := max 0 (quality_score example_cookie - 5),
                      status := Failed, validity_isValid := False, updatedAt := 5000\<rparr>
          else c2 = example_cookie\<lparr>quality_score := max 0 (quality_score example_cookie - 5),
                      updatedAt := 5000\<rparr>"
    by blast
  from 2(2) have "quality_score c2 = 95" by (simp add: example_cookie_def)
  with 2(3) have e2: "c2 = example_cookie\<lparr>quality_score := 95, updatedAt := 5000\<rparr>"
    by (simp add: example_cookie_def)
  from main w f have
    3: "\<exists>c'. doc_by_oid (failures (replicate 17 5000) ''a'' example_store) 0 = Some c'
           \<and> quality_score c' = 15 \<and> status c' = Failed \<and> validity_isValid c' = False"
    and 4: "\<forall>calls t crit d s'.
              getBestCookies t crit
                (store_run calls (failures (replicate 17 5000) ''a'' example_store)) = (Some d, s')
              \<longrightarrow> oid d \<noteq> 0"
    by blast+
  from 4 have e4: "\<not> (\<exists>d s'. getBestCookies 6000 no_criteria
              (store_run [] (failures (replicate 17 5000) ''a'' example_store)) = (Some d, s')
           \<and> oid d = 0)" by blast
  from 1(1) e1 2(1) e2 3 e4 show ?thesis by blast
qed

section \<open>Artifact store: expiry of a stored payload\<close>







section \<open>Attempt tracker: backoff and completion\<close>

lemma Math_pow2_mono: "a \<le> b \<Longrightarrow> Math_pow2 a \<le> Math_pow2 b"
proof -
  assume ab: "a \<le> b"
  have pos: "\<And>k::nat. (1::rat) \<le> 2 ^ k" by simp
  show ?thesis
  proof (cases "0 \<le> a")
    case True
    with ab have "nat a \<le> nat b" "0 \<le> b" by auto
    then show ?thesis using True
      by (simp add: Math_pow2_def power_increasing)
  next
    case False
    note na = this
    show ?thesis
    proof (cases "0 \<le> b")
      case True
      have "1 / 2 ^ nat (- a) \<le> (1::rat)" using pos[of "nat (- a)"] by (simp add: field_simps)
      also have "\<dots> \<le> 2 ^ nat b" by (rule pos)
      finally show ?thesis using na True by (simp add: Math_pow2_def)
    next
      case False
      with ab na have "nat (- b) \<le> nat (- a)" by auto
      then have "(2::rat) ^ nat (- b) \<le> 2 ^ nat (- a)" by (simp add: power_increasing)
      then have "1 / 2 ^ nat (- a) \<le> 1 / (2::rat) ^ nat (- b)"
        by (simp add: frac_le)
      then show ?thesis using na False by (simp add: Math_pow2_def)
    qed
  qed
qed

lemma calculateBackoffDelay_mono:
  "m \<le> n \<Longrightarrow> calculateBackoffDelay m \<le> calculateBackoffDelay n"
proof -
  assume "m \<le> n"
  then have "min (m - 1) 4 \<le> min (n - 1) 4" by simp
  then have "Math_pow2 (min (m - 1) 4) \<le> Math_pow2 (min (n - 1) 4)"
    by (rule Math_pow2_mono)
  then have "baseDelay * Math_pow2 (min (m - 1) 4) \<le> baseDelay * Math_pow2 (min (n - 1) 4)"
    by (simp add: baseDelay_def)
  then show ?thesis
    by (simp add: calculateBackoffDelay_def Let_def min_le_iff_disj)
qed

lemma calculateBackoffDelay_closed_form:
  assumes "1 \<le> n"
  shows "calculateBackoffDelay n
     = of_int (min (60 * 60 * 1000) (5 * 60 * 1000 * 2 ^ nat (min (n - 1) 4)))"
proof -
  have e: "0 \<le> min (n - 1) 4" using assms by simp
  have "calculateBackoffDelay n = min (300000 * 2 ^ nat (min (n - 1) 4)) 3600000"
    using e by (simp add: calculateBackoffDelay_def Let_def Math_pow2_def baseDelay_def maxDelay_def)
  also have "\<dots> = of_int (min (300000 * 2 ^ nat (min (n - 1) 4)) 3600000)"
    by (simp only: of_int_min of_int_mult of_int_power of_int_numeral)
  finally show ?thesis by (simp add: min.commute)
qed

text \<open>
  C5.  The backoff used by \<^verbatim>\<open>markFailed\<close> is \<open>min(1 hour, 5 minutes * 2^(min(n-1, 4)))\<close>
  for every \<open>n \<ge> 1\<close>; it is non-decreasing in \<open>n\<close>, never more than one hour, five minutes
  at \<open>n = 1\<close> and one hour at \<open>n = 5\<close> and at \<open>n = 6\<close>.
\<close>

theorem C5_backoff:
  "(\<forall>n\<ge>1. calculateBackoffDelay n
       = of_int (min (60 * 60 * 1000) (5 * 60 * 1000 * 2 ^ nat (min (n - 1) 4))))
   \<and> (\<forall>m n. m \<le> n \<longrightarrow> calculateBackoffDelay m \<le> calculateBackoffDelay n)
   \<and> (\<forall>n. calculateBackoffDelay n \<le> 60 * 60 * 1000)
   \<and> calculateBackoffDelay 1 = 5 * 60 * 1000
   \<and> calculateBackoffDelay 5 = 60 * 60 * 1000
   \<and> calculateBackoffDelay 6 = 60 * 60 * 1000"
proof (intro conjI allI impI)
  fix n :: int assume "1 \<le> n"
  then show "calculateBackoffDelay n
       = of_int (min (60 * 60 * 1000) (5 * 60 * 1000 * 2 ^ nat (min (n - 1) 4)))"
    by (rule calculateBackoffDelay_closed_form)
next
  fix m n :: int assume "m \<le> n"
  then show "calculateBackoffDelay m \<le> calculateBackoffDelay n"
    by (rule calculateBackoffDelay_mono)
next
  fix n :: int
  show "calculateBackoffDelay n \<le> 60 * 60 * 1000"
    by (simp add: calculateBackoffDelay_def Let_def maxDelay_def)
next
  show "calculateBackoffDelay 1 = 5 * 60 * 1000"
    by (simp add: calculateBackoffDelay_def Let_def Math_pow2_def baseDelay_def maxDelay_def)
next
  show "calculateBackoffDelay 5 = 60 * 60 * 1000"
    by (simp add: calculateBackoffDelay_def Let_def Math_pow2_def baseDelay_def maxDelay_def)
next
  show "calculateBackoffDelay 6 = 60 * 60 * 1000"
    by (simp add: calculateBackoffDelay_def Let_def Math_pow2_def baseDelay_def maxDelay_def)
qed

theorem C5_backoff_witness:
  "calculateBackoffDelay 3 = 1200000 \<and> calculateBackoffDelay 2 \<le> calculateBackoffDelay 4
   \<and> calculateBackoffDelay 9 \<le> 3600000"
proof -
  have a: "calculateBackoffDelay 3
       = of_int (min (60 * 60 * 1000) (5 * 60 * 1000 * 2 ^ nat (min (3 - 1) 4)))"
    using C5_backoff by simp
  have b: "calculateBackoffDelay 2 \<le> calculateBackoffDelay 4"
    using C5_backoff by simp
  have c: "calculateBackoffDelay 9 \<le> 3600000"
    using C5_backoff by simp
  from a have "calculateBackoffDelay 3 = 1200000" by simp
  with b c show ?thesis by simp
qed

subsection \<open>Completing an attempt\<close>

lemmas attempt_defs = attempt1_def attempt1_failed_def attempt2_def attempt2_failed_def

lemmas tracker_defs = startRefresh_def markFailed_def markSuccess_def validateInput_def
  findOneAndUpdate_def findOne_def mergeObjects_def js_or_def count_arg_def
  calculateBackoffDelay_def Math_pow2_def baseDelay_def maxDelay_def Let_def

text \<open>
  C3, on the plain tracker.  An attempt is started, marked successful and then marked
  failed: the second completion is not refused, it returns the record and overwrites
  it (status \<^verbatim>\<open>failed\<close>, a new completion time, duration and next scheduled refresh).
\<close>

theorem C3_plain_tracker_overwrites:
  "plain_startRefresh 1000 ''r1'' None (JStr ''E1'') JNull [] []
     = (example_refresh, [example_refresh])
   \<and> plain_markSuccess 2000 ''r1'' 5 0 [] [example_refresh]
     = (Some (example_refresh\<lparr>r_status := Success, completionTime := Some 2000,
                nextScheduledRefresh := Some 1802000, cookieCount := Some 5,
                retryCount := Some 0, duration := Some 1000\<rparr>),
        [example_refresh\<lparr>r_status := Success, completionTime := Some 2000,
                nextScheduledRefresh := Some 1802000, cookieCount := Some 5,
                retryCount := Some 0, duration := Some 1000\<rparr>])
   \<and> plain_markFailed 3000 ''r1'' ''late report'' 0 []
       [example_refresh\<lparr>r_status := Success, completionTime := Some 2000,
                nextScheduledRefresh := Some 1802000, cookieCount := Some 5,
                retryCount := Some 0, duration := Some 1000\<rparr>]
     = (Some (example_refresh\<lparr>r_status := Failed_refresh, completionTime := Some 3000,
                nextScheduledRefresh := Some 303000, cookieCount := Some 5,
                retryCount := Some 0, duration := Some 2000,
                errorMessage := Some ''late report''\<rparr>),
        [example_refresh\<lparr>r_status := Failed_refresh, completionTime := Some 3000,
                nextScheduledRefresh := Some 303000, cookieCount := Some 5,
                retryCount := Some 0, duration := Some 2000,
                errorMessage := Some ''late report''\<rparr>])"
  by (simp add: plain_startRefresh_def plain_markSuccess_def plain_markFailed_def
      findOneAndUpdate_def findOne_def example_refresh_def mergeObjects_def js_or_def Let_def)

lemma no_in_progress_markSuccess:
  assumes "\<forall>r \<in> set rs. refreshId r = rid \<longrightarrow> r_status r \<noteq> In_progress"
  shows "markSuccess now rid cc rc md rs
           = Inl (Error ''Refresh record not found or already completed'')"
proof -
  have "find (\<lambda>r. refreshId r = rid \<and> r_status r = In_progress) rs = None"
    using assms by (auto simp: find_None_iff)
  then show ?thesis
    by (simp add: markSuccess_def validateInput_def findOneAndUpdate_def findOne_def Let_def)
qed

lemma no_in_progress_markFailed:
  assumes "\<forall>r \<in> set rs. refreshId r = rid \<longrightarrow> r_status r \<noteq> In_progress"
  shows "\<exists>msg. markFailed now rid em rc md rs = Inl (Error msg)"
proof -
  have "find (\<lambda>r. refreshId r = rid \<and> r_status r = In_progress) rs = None"
    using assms by (auto simp: find_None_iff)
  then show ?thesis
    by (cases em)
       (auto simp: markFailed_def validateInput_def findOneAndUpdate_def findOne_def Let_def
          split: option.splits)
qed

lemma markSuccess_leaves_none_in_progress:
  assumes "distinct (map refreshId rs)" "markSuccess now rid cc rc md rs = Inr (r', rs')"
  shows "r_status r' = Success \<and> distinct (map refreshId rs')
         \<and> (\<forall>r \<in> set rs'. refreshId r = rid \<longrightarrow> r_status r \<noteq> In_progress)"
proof -
  let ?q = "\<lambda>r. refreshId r = rid \<and> r_status r = In_progress"
  let ?f = "\<lambda>r. r\<lparr>r_status := Success, completionTime := Some now,
                   nextScheduledRefresh := Some (now + 30 * 60 * 1000),
                   cookieCount := Some (count_arg cc), retryCount := Some (count_arg rc),
                   duration := Some (now - startTime r),
                   r_metadata := mergeObjects (r_metadata r) md\<rparr>"
  from assms(2) obtain d where d: "find ?q rs = Some d" and r': "r' = ?f d"
    and rs': "rs' = updateOne ?q ?f rs"
    by (auto simp: markSuccess_def validateInput_def findOneAndUpdate_def findOne_def Let_def
        split: option.splits if_splits)
  have "\<forall>r \<in> set (updateOne ?q ?f rs). refreshId r = rid \<longrightarrow> r = ?f d"
    using assms(1) d by (rule updateOne_distinct_key) simp_all
  then have "\<forall>r \<in> set rs'. refreshId r = rid \<longrightarrow> r_status r \<noteq> In_progress"
    unfolding rs' by fastforce
  moreover have "distinct (map refreshId rs')"
    using assms(1) unfolding rs' by (simp add: map_updateOne)
  ultimately show ?thesis using r' by simp
qed

lemma markFailed_leaves_none_in_progress:
  assumes "distinct (map refreshId rs)" "markFailed now rid em rc md rs = Inr (r', rs')"
  shows "r_status r' = Failed_refresh \<and> distinct (map refreshId rs')
         \<and> (\<forall>r \<in> set rs'. refreshId r = rid \<longrightarrow> r_status r \<noteq> In_progress)"
proof -
  let ?q = "\<lambda>r. refreshId r = rid \<and> r_status r = In_progress"
  from assms(2) obtain d f where d: "find ?q rs = Some d" and r': "r' = f d"
    and rs': "rs' = updateOne ?q f rs" and f: "\<And>r. refreshId (f r) = refreshId r"
      "\<And>r. r_status (f r) = Failed_refresh"
    by (cases em)
       (auto simp: markFailed_def validateInput_def findOneAndUpdate_def findOne_def Let_def
        split: option.splits if_splits)
  have "\<forall>r \<in> set (updateOne ?q f rs). refreshId r = rid \<longrightarrow> r = f d"
    using assms(1) d by (rule updateOne_distinct_key) (simp_all add: f)
  then have "\<forall>r \<in> set rs'. refreshId r = rid \<longrightarrow> r_status r \<noteq> In_progress"
    unfolding rs' using f(2) by fastforce
  moreover have "distinct (map refreshId rs')"
    using assms(1) unfolding rs' by (simp add: map_updateOne f)
  ultimately show ?thesis using r' f by simp
qed

text \<open>
  The enhanced tracker does refuse it: once \<^verbatim>\<open>markSuccess\<close> or \<^verbatim>\<open>markFailed\<close> has
  completed an attempt (of a collection with distinct \<open>refreshId\<close>s), the record has left
  \<^verbatim>\<open>in_progress\<close> and every further \<^verbatim>\<open>markSuccess\<close> or \<^verbatim>\<open>markFailed\<close> on that id throws
  and writes nothing.
\<close>

theorem enhanced_tracker_completes_once:
  "distinct (map refreshId rs)
   \<and> (markSuccess t1 rid cc rc md rs = Inr (r', rs')
      \<or> markFailed t1 rid em rc md rs = Inr (r', rs')) \<longrightarrow>
   r_status r' \<noteq> In_progress
   \<and> markSuccess t2 rid cc2 rc2 md2 rs'
       = Inl (Error ''Refresh record not found or already completed'')
   \<and> (\<exists>msg. markFailed t2 rid em2 rc2 md2 rs' = Inl (Error msg))"
proof (intro impI, elim conjE)
  assume d: "distinct (map refreshId rs)"
    and c: "markSuccess t1 rid cc rc md rs = Inr (r', rs')
      \<or> markFailed t1 rid em rc md rs = Inr (r', rs')"
  from c have "r_status r' \<noteq> In_progress
      \<and> (\<forall>r \<in> set rs'. refreshId r = rid \<longrightarrow> r_status r \<noteq> In_progress)"
  proof
    assume "markSuccess t1 rid cc rc md rs = Inr (r', rs')"
    from markSuccess_leaves_none_in_progress[OF d this] show ?thesis by simp
  next
    assume "markFailed t1 rid em rc md rs = Inr (r', rs')"
    from markFailed_leaves_none_in_progress[OF d this] show ?thesis by simp
  qed
  then show "r_status r' \<noteq> In_progress
   \<and> markSuccess t2 rid cc2 rc2 md2 rs'
       = Inl (Error ''Refresh record not found or already completed'')
   \<and> (\<exists>msg. markFailed t2 rid em2 rc2 md2 rs' = Inl (Error msg))"
    using no_in_progress_markSuccess no_in_progress_markFailed by blast
qed

theorem enhanced_tracker_completes_once_witness:
  "markSuccess 5000 ''r1'' (Some 3) (Some 0) [] [attempt1_failed]
     = Inl (Error ''Refresh record not found or already completed'')
   \<and> (\<exists>msg. markFailed 5000 ''r1'' (JStr ''again'') (Some 0) [] [attempt1_failed]
         = Inl (Error msg))"
proof -
  have d: "distinct (map refreshId [attempt1])" by simp
  have f: "markFailed 2000 ''r1'' (JStr ''timeout'') (Some 0) [] [attempt1]
       = Inr (attempt1_failed, [attempt1_failed])"
    by (simp add: tracker_defs attempt_defs)
  from enhanced_tracker_completes_once[where rs = "[attempt1]" and ?t1.0 = 2000
      and rid = "''r1''" and rc = "Some 0" and md = "[]" and r' = attempt1_failed
      and rs' = "[attempt1_failed]" and em = "JStr ''timeout''" and ?t2.0 = 5000
      and ?cc2.0 = "Some 3" and ?rc2.0 = "Some 0" and ?md2.0 = "[]"
      and ?em2.0 = "JStr ''again''"] d f
  show ?thesis by blast
qed


text \<open>
  In general: when an attempt started under a fresh id fails, the count it records is
  the schema default (0 when there is none) plus one, whatever the collection held
  before.
\<close>

theorem fresh_attempt_failure_count:
  "(\<forall>r \<in> set rs. refreshId r \<noteq> rid)
   \<and> startRefresh env t0 rid cf_default ev px md rs = Inr (r, rs1)
   \<and> markFailed t rid em rc md' rs1 = Inr (r', rs2) \<longrightarrow>
   consecutiveFailures r' = Some ((case cf_default of None \<Rightarrow> 0 | Some k \<Rightarrow> k) + 1)
   \<and> nextScheduledRefresh r'
       = Some \<lfloor>of_int t
               + calculateBackoffDelay ((case cf_default of None \<Rightarrow> 0 | Some k \<Rightarrow> k) + 1)\<rfloor>"
proof (intro impI, elim conjE)
  assume fresh: "\<forall>r \<in> set rs. refreshId r \<noteq> rid"
    and st: "startRefresh env t0 rid cf_default ev px md rs = Inr (r, rs1)"
    and mf: "markFailed t rid em rc md' rs1 = Inr (r', rs2)"
  from st have rs1: "rs1 = rs @ [r]" and r: "refreshId r = rid" "consecutiveFailures r = cf_default"
    by (auto simp: startRefresh_def Let_def split: if_splits option.splits)
  have "find (\<lambda>x. refreshId x = rid) (rs @ [r]) = Some r"
    using fresh r(1) by (induction rs) auto
  then have cur: "findOne (\<lambda>x. refreshId x = rid) rs1 = Some r"
    by (simp add: rs1 findOne_def)
  let ?k = "(case cf_default of None \<Rightarrow> 0 | Some k \<Rightarrow> k) + 1"
  have k: "(case consecutiveFailures r of Some k \<Rightarrow> if k \<noteq> 0 then k else 0 | None \<Rightarrow> 0) + 1 = ?k"
    by (simp add: r(2) split: option.splits)
  from mf cur show "consecutiveFailures r' = Some ?k
     \<and> nextScheduledRefresh r' = Some \<lfloor>of_int t + calculateBackoffDelay ?k\<rfloor>"
    unfolding k[symmetric]
    by (cases em)
       (auto simp: markFailed_def validateInput_def findOneAndUpdate_def Let_def
          split: if_splits option.splits)
qed

theorem fresh_attempt_failure_count_witness:
  "consecutiveFailures attempt2_failed = Some 1
   \<and> nextScheduledRefresh attempt2_failed = Some \<lfloor>4000 + calculateBackoffDelay 1\<rfloor>"
proof -
  have h: "(\<forall>r \<in> set [attempt1_failed]. refreshId r \<noteq> ''r2'')
     \<and> startRefresh None 3000 ''r2'' None (JStr ''E1'') JNull (Some []) [attempt1_failed]
         = Inr (attempt2, [attempt1_failed, attempt2])
     \<and> markFailed 4000 ''r2'' (JStr ''timeout'') (Some 0) [] [attempt1_failed, attempt2]
         = Inr (attempt2_failed, [attempt1_failed, attempt2_failed])"
    by (simp add: tracker_defs attempt_defs)
  from fresh_attempt_failure_count[where rs = "[attempt1_failed]" and rid = "''r2''"
      and env = None and ?t0.0 = 3000 and cf_default = None and ev = "JStr ''E1''" and px = JNull
      and md = "Some []" and r = attempt2 and ?rs1.0 = "[attempt1_failed, attempt2]"
      and t = 4000 and em = "JStr ''timeout''" and rc = "Some 0" and md' = "[]"
      and r' = attempt2_failed and ?rs2.0 = "[attempt1_failed, attempt2_failed]"] h
  show ?thesis by simp
qed

subsection \<open>Starting an attempt with proxies disabled\<close>

text \<open>
  C10, as amended.  While \<^verbatim>\<open>DISABLE_PROXIES\<close> is \<^verbatim>\<open>'true'\<close>, every call of the enhanced
  \<^verbatim>\<open>startRefresh\<close> throws and creates no record: a \<^verbatim>\<open>TypeError\<close> from the assignment to
  the constant \<^verbatim>\<open>proxyString\<close> when the arguments pass \<^verbatim>\<open>validateInput\<close>, and the
  validation error otherwise.
\<close>

theorem C10_startRefresh_disabled_proxies:
  "(\<exists>e. startRefresh (Some ''true'') now rid cf_default eventId' proxy' metadata' rs = Inl e)
   \<and> (validateInput JNull eventId' proxy' = [] \<longrightarrow>
        startRefresh (Some ''true'') now rid cf_default eventId' proxy' metadata' rs
          = Inl (TypeError ''Assignment to constant variable.''))
   \<and> (validateInput JNull eventId' proxy' \<noteq> [] \<longrightarrow>
        startRefresh (Some ''true'') now rid cf_default eventId' proxy' metadata' rs
          = Inl (Error (''Validation failed: '' @ join (validateInput JNull eventId' proxy'))))"
  by (simp add: startRefresh_def Let_def)

theorem C10_witness:
  "startRefresh (Some ''true'') 1000 ''r1'' None (JStr ''E1'') (JObj [(''proxy'', JStr ''10.0.0.1:8080'')])
       (Some []) [] = Inl (TypeError ''Assignment to constant variable.'')
   \<and> startRefresh (Some ''true'') 1000 ''r1'' None (JStr ''E1'') (JNum 7)
       (Some []) [] = Inl (Error ''Validation failed: proxy must be a string or object'')"
proof -
  have a: "validateInput JNull (JStr ''E1'') (JObj [(''proxy'', JStr ''10.0.0.1:8080'')]) = []"
    by (simp add: validateInput_def)
  have b: "validateInput JNull (JStr ''E1'') (JNum 7) = [''proxy must be a string or object'']"
    by (simp add: validateInput_def)
  from a C10_startRefresh_disabled_proxies[of 1000 "''r1''" None "JStr ''E1''"
      "JObj [(''proxy'', JStr ''10.0.0.1:8080'')]" "Some []" "[]"]
  have 1: "startRefresh (Some ''true'') 1000 ''r1'' None (JStr ''E1'')
      (JObj [(''proxy'', JStr ''10.0.0.1:8080'')]) (Some []) []
      = Inl (TypeError ''Assignment to constant variable.'')" by blast
  from b C10_startRefresh_disabled_proxies[of 1000 "''r1''" None "JStr ''E1''"
      "JNum 7" "Some []" "[]"]
  have 2: "startRefresh (Some ''true'') 1000 ''r1'' None (JStr ''E1'') (JNum 7) (Some []) []
      = Inl (Error ''Validation failed: proxy must be a string or object'')" by simp
  from 1 2 show ?thesis by simp
qed

text \<open>
  C10 as first stated fails: with a number for \<^verbatim>\<open>eventId\<close> the call throws the
  validation \<^verbatim>\<open>Error\<close> before it reaches the assignment, not a \<^verbatim>\<open>TypeError\<close>.
\<close>

theorem C10_counterexample:
  "startRefresh (Some ''true'') 1000 ''r1'' None (JNum 5) JNull (Some []) []
     = Inl (Error ''Validation failed: eventId must be a string'')"
  by (simp add: startRefresh_def validateInput_def)

section \<open>Proxy rotator: the choice\<close>

lemma random_index_in_range:
  assumes "0 \<le> (rnd::rat)" "rnd < 1" "xs \<noteq> []"
  shows "0 \<le> \<lfloor>rnd * of_nat (length xs)\<rfloor>" "\<lfloor>rnd * of_nat (length xs)\<rfloor> < int (length xs)"
proof -
  have pos: "(0::rat) < of_nat (length xs)" using assms(3) by simp
  show "0 \<le> \<lfloor>rnd * of_nat (length xs)\<rfloor>" using assms(1) by simp
  have "rnd * of_nat (length xs) < 1 * of_nat (length xs)"
    using assms(2) pos by (rule mult_strict_right_mono)
  then have "rnd * of_nat (length xs) < of_int (int (length xs))" by simp
  then show "\<lfloor>rnd * of_nat (length xs)\<rfloor> < int (length xs)"
    by (simp only: floor_less_iff)
qed

lemma random_pick_mem:
  assumes "0 \<le> (rnd::rat)" "rnd < 1" "xs \<noteq> []"
  shows "xs ! nat \<lfloor>rnd * of_nat (length xs)\<rfloor> \<in> set xs"
proof -
  from random_index_in_range[OF assms]
  have "nat \<lfloor>rnd * of_nat (length xs)\<rfloor> < length xs" by linarith
  then show ?thesis by (rule nth_mem)
qed

text \<open>
  C7.  With a non-empty proxy list (and \<^verbatim>\<open>Math.random()\<close> in \<open>[0, 1)\<close>),
  \<^verbatim>\<open>getRandomProxy(true)\<close> returns a proxy of the list: when every proxy is in the failed
  set it empties the failed set and chooses among all proxies, otherwise it leaves the
  set alone and chooses a proxy that is not in it.  It returns \<^verbatim>\<open>null\<close> exactly when the
  helper has no list or an empty one.
\<close>

theorem C7_getRandomProxy:
  "(ps \<noteq> [] \<and> 0 \<le> rnd \<and> rnd < 1 \<longrightarrow>
      (\<exists>p failed'. getRandomProxy rnd True (Some ps) failed = (Inr (Some p), failed')
         \<and> p \<in> set ps
         \<and> (if \<forall>q \<in> set ps. proxy q \<in> set failed
             then failed' = []
             else failed' = failed \<and> proxy p \<notin> set failed)))
   \<and> (fst (getRandomProxy rnd avoid proxies failed) = Inr None
        \<longleftrightarrow> proxies = None \<or> proxies = Some [])"
proof (intro conjI impI; (elim conjE)?)
  assume ne: "ps \<noteq> []" and r: "0 \<le> rnd" "rnd < 1"
  let ?filtered = "filter (\<lambda>p. \<not> Set_has failed (proxy p)) ps"
  show "\<exists>p failed'. getRandomProxy rnd True (Some ps) failed = (Inr (Some p), failed')
         \<and> p \<in> set ps
         \<and> (if \<forall>q \<in> set ps. proxy q \<in> set failed
             then failed' = []
             else failed' = failed \<and> proxy p \<notin> set failed)"
  proof (cases "\<forall>q \<in> set ps. proxy q \<in> set failed")
    case True
    then have f: "?filtered = []" by (auto simp: Set_has_def filter_empty_conv)
    from True ne have sz: "Set_size failed > 0"
      by (cases ps; cases failed) (auto simp: Set_size_def)
    have "getRandomProxy rnd True (Some ps) failed
            = (Inr (Some (ps ! nat \<lfloor>rnd * of_nat (length ps)\<rfloor>)), [])"
      using ne f sz random_index_in_range[OF r ne]
      by (simp add: getRandomProxy_def Let_def)
    with True random_pick_mem[OF r ne] show ?thesis by simp
  next
    case False
    then have fne: "?filtered \<noteq> []" by (auto simp: Set_has_def filter_empty_conv)
    have sub: "set ?filtered \<subseteq> set ps" by auto
    have nf: "\<And>p. p \<in> set ?filtered \<Longrightarrow> proxy p \<notin> set failed"
      by (simp add: Set_has_def)
    show ?thesis
    proof (cases "Set_size failed > 0")
      case True
      have "getRandomProxy rnd True (Some ps) failed
              = (Inr (Some (?filtered ! nat \<lfloor>rnd * of_nat (length ?filtered)\<rfloor>)), failed)"
        using ne fne True random_index_in_range[OF r fne]
        by (simp add: getRandomProxy_def Let_def)
      with False random_pick_mem[OF r fne] sub nf show ?thesis
        by (metis (no_types, lifting) subsetD)
    next
      case nosz: False
      then have e: "failed = []" by (simp add: Set_size_def)
      have "getRandomProxy rnd True (Some ps) failed
              = (Inr (Some (ps ! nat \<lfloor>rnd * of_nat (length ps)\<rfloor>)), failed)"
        using ne nosz random_index_in_range[OF r ne]
        by (simp add: getRandomProxy_def Let_def)
      with False random_pick_mem[OF r ne] e show ?thesis by simp
    qed
  qed
next
  show "fst (getRandomProxy rnd avoid proxies failed) = Inr None
        \<longleftrightarrow> proxies = None \<or> proxies = Some []"
    by (cases proxies)
       (auto simp: getRandomProxy_def Let_def split: if_splits prod.splits)
qed

theorem C7_witness:
  "(\<exists>p. getRandomProxy (1 / 2) True (Some [proxy_a, proxy_b])
          [''10.0.0.2:8080'', ''10.0.0.1:8080''] = (Inr (Some p), [])
        \<and> p \<in> set [proxy_a, proxy_b])
   \<and> (\<exists>p. getRandomProxy (1 / 2) True (Some [proxy_a, proxy_b]) [''10.0.0.2:8080'']
          = (Inr (Some p), [''10.0.0.2:8080'']) \<and> proxy p \<notin> set [''10.0.0.2:8080''])
   \<and> fst (getRandomProxy (1 / 2) True (Some []) [''10.0.0.2:8080'']) = Inr None"
proof -
  have h: "[proxy_a, proxy_b] \<noteq> [] \<and> (0::rat) \<le> 1 / 2 \<and> (1 / 2 :: rat) < 1" by simp
  have all: "\<forall>q \<in> set [proxy_a, proxy_b]. proxy q \<in> set [''10.0.0.2:8080'', ''10.0.0.1:8080'']"
    by (simp add: proxy_a_def proxy_b_def)
  have notall: "\<not> (\<forall>q \<in> set [proxy_a, proxy_b]. proxy q \<in> set [''10.0.0.2:8080''])"
    by (simp add: proxy_a_def proxy_b_def)
  from C7_getRandomProxy[of "[proxy_a, proxy_b]" "1 / 2" "[''10.0.0.2:8080'', ''10.0.0.1:8080'']"] h
  obtain p failed' where
    "getRandomProxy (1 / 2) True (Some [proxy_a, proxy_b])
       [''10.0.0.2:8080'', ''10.0.0.1:8080''] = (Inr (Some p), failed')"
    "p \<in> set [proxy_a, proxy_b]"
    "if \<forall>q \<in> set [proxy_a, proxy_b]. proxy q \<in> set [''10.0.0.2:8080'', ''10.0.0.1:8080'']
     then failed' = []
     else failed' = [''10.0.0.2:8080'', ''10.0.0.1:8080'']
          \<and> proxy p \<notin> set [''10.0.0.2:8080'', ''10.0.0.1:8080'']"
    by blast
  with all have a: "\<exists>p. getRandomProxy (1 / 2) True (Some [proxy_a, proxy_b])
          [''10.0.0.2:8080'', ''10.0.0.1:8080''] = (Inr (Some p), [])
        \<and> p \<in> set [proxy_a, proxy_b]" by auto
  from C7_getRandomProxy[of "[proxy_a, proxy_b]" "1 / 2" "[''10.0.0.2:8080'']"] h
  obtain p failed' where
    "getRandomProxy (1 / 2) True (Some [proxy_a, proxy_b]) [''10.0.0.2:8080'']
       = (Inr (Some p), failed')"
    "if \<forall>q \<in> set [proxy_a, proxy_b]. proxy q \<in> set [''10.0.0.2:8080'']
     then failed' = []
     else failed' = [''10.0.0.2:8080''] \<and> proxy p \<notin> set [''10.0.0.2:8080'']"
    by blast
  with notall have b: "\<exists>p. getRandomProxy (1 / 2) True (Some [proxy_a, proxy_b]) [''10.0.0.2:8080'']
          = (Inr (Some p), [''10.0.0.2:8080'']) \<and> proxy p \<notin> set [''10.0.0.2:8080'']"
    by auto
  from C7_getRandomProxy[where rnd = "1 / 2" and avoid = True and proxies = "Some []"
      and failed = "[''10.0.0.2:8080'']"]
  have c: "fst (getRandomProxy (1 / 2) True (Some []) [''10.0.0.2:8080'']) = Inr None"
    by simp
  from a b c show ?thesis by blast
qed

section \<open>Pool scheduler: the concurrency cap\<close>









text \<open>
  The cap rests on that check alone: \<^verbatim>\<open>startNewBrowserSession\<close> adds the id whatever the
  size of the set.  The source awaits \<^verbatim>\<open>getRandomEvent\<close> between the check and the
  \<^verbatim>\<open>add\<close>, so two calls that both passed the check on an empty set under a cap of one
  leave two active sessions.
\<close>

theorem startNewBrowserSession_unguarded:
  "startNewBrowserSession (Some e) sessionId m
     = m\<lparr>activeBrowsers := Set_add sessionId (activeBrowsers m)\<rparr>
   \<and> Set_size (activeBrowsers (new_manager one_browser)) < maxConcurrentBrowsers one_browser
   \<and> Set_size (activeBrowsers
         (startNewBrowserSession (Some example_event) ''s2''
           (startNewBrowserSession (Some example_event) ''s1'' (new_manager one_browser)))) = 2
   \<and> maxConcurrentBrowsers one_browser = 1"
  by (simp add: startNewBrowserSession_def Set_add_def Set_size_def new_manager_def
      one_browser_def)

end
